theory Spec2Isabelle
  imports Main "HOL-Library.Multiset"
begin

section \<open>The persistence layer (server/db.js)\<close>

text \<open>
  The JSON file holds four keys. A record of the file is modelled with the fields the
  operations read; the timestamps and the free-form fields spread into a source
  (\<^verbatim>\<open>...source\<close>) are left out, no operation below looks at them.

  A number that went through \<^verbatim>\<open>parseInt\<close> is an \<open>int option\<close>: \<open>None\<close> is
  \<^verbatim>\<open>NaN\<close> (stored by \<^verbatim>\<open>JSON.stringify\<close> as \<^verbatim>\<open>null\<close>).
\<close>

record sourceRec =
  src_id :: int
  src_name :: string
  src_type :: string
  src_enabled :: bool

record hiddenRec =
  hid_id :: int
  hid_source_id :: "int option"
  hid_item_type :: string
  hid_item_id :: string

record favoriteRec =
  fav_id :: int
  fav_source_id :: "int option"
  fav_item_id :: string
  fav_item_type :: string

record db =
  db_sources :: "sourceRec list"
  db_hiddenItems :: "hiddenRec list"
  db_favorites :: "favoriteRec list"
  db_nextId :: int

text \<open>
  \<^verbatim>\<open>loadDb\<close>: the parsed file, or the empty database when the file is missing or
  does not parse (\<open>None\<close>).
\<close>

definition emptyDb :: db where
  "emptyDb = \<lparr>db_sources = [], db_hiddenItems = [], db_favorites = [], db_nextId = 1\<rparr>"

definition loadDb :: "db option \<Rightarrow> db" where
  "loadDb file = (case file of Some data \<Rightarrow> data | None \<Rightarrow> emptyDb)"

definition saveDb :: "db \<Rightarrow> db option" where
  "saveDb data = Some data"

text \<open>
  JavaScript's \<^verbatim>\<open>a !== b\<close> on two such numbers: \<^verbatim>\<open>NaN\<close> and \<^verbatim>\<open>null\<close> differ from
  everything, two integers differ when they are different integers.
\<close>

definition strictNe :: "int option \<Rightarrow> int option \<Rightarrow> bool" where
  "strictNe a b = (case (a, b) of (Some x, Some y) \<Rightarrow> x \<noteq> y | _ \<Rightarrow> True)"

text \<open>
  \<^verbatim>\<open>sources.delete(id)\<close>; \<open>pid\<close> is \<^verbatim>\<open>parseInt(id)\<close>. The result is the file
  as \<^verbatim>\<open>saveDb\<close> writes it.
\<close>

definition sources_delete :: "int option \<Rightarrow> db option \<Rightarrow> db option" where
  "sources_delete pid file =
     (let db0 = loadDb file;
          db1 = db0\<lparr>db_sources := filter (\<lambda>s. strictNe (Some (src_id s)) pid) (db_sources db0)\<rparr>;
          db2 = db1\<lparr>db_hiddenItems :=
                  filter (\<lambda>h. strictNe (hid_source_id h) pid) (db_hiddenItems db1)\<rparr>
      in saveDb db2)"

section \<open>Strings of the channel list component (class ChannelList)\<close>

text \<open>
  Strings are byte strings. \<^verbatim>\<open>showNat\<close> is the decimal text a template literal
  produces for a non-negative integer.
\<close>

fun showNat :: "nat \<Rightarrow> string" where
  "showNat n = (if n < 10 then [''0123456789'' ! n]
                else showNat (n div 10) @ [''0123456789'' ! (n mod 10)])"

declare showNat.simps [simp del]

text \<open>\<^verbatim>\<open>toLowerCase\<close>, on the ASCII letters.\<close>

definition toLowerChar :: "char \<Rightarrow> char" where
  "toLowerChar c =
     (case map_of (zip ''ABCDEFGHIJKLMNOPQRSTUVWXYZ'' ''abcdefghijklmnopqrstuvwxyz'') c of
        Some d \<Rightarrow> d
      | None \<Rightarrow> c)"

definition toLowerCase :: "string \<Rightarrow> string" where
  "toLowerCase str = map toLowerChar str"

fun startsWith :: "string \<Rightarrow> string \<Rightarrow> bool" where
  "startsWith str [] = True"
| "startsWith [] (c # cs) = False"
| "startsWith (d # ds) (c # cs) = (d = c \<and> startsWith ds cs)"

text \<open>\<^verbatim>\<open>str.includes(needle)\<close>: \<open>needle\<close> occurs in \<open>str\<close> as a substring.\<close>

fun includesStr :: "string \<Rightarrow> string \<Rightarrow> bool" where
  "includesStr [] needle = (needle = [])"
| "includesStr (d # ds) needle = (startsWith (d # ds) needle \<or> includesStr ds needle)"

section \<open>Entities and the Xtream merge\<close>

datatype sourceType = Xtream | M3u

text \<open>
  A channel of \<^verbatim>\<open>this.channels\<close>. A falsy \<^verbatim>\<open>groupTitle\<close>, \<^verbatim>\<open>url\<close> or
  \<^verbatim>\<open>streamId\<close> is the empty string or \<open>None\<close>.
\<close>

record channel =
  chId :: string
  streamId :: "nat option"
  name :: string
  tvgId :: string
  tvgLogo :: string
  groupId :: string
  groupTitle :: string
  sourceId :: nat
  sourceType :: sourceType
  url :: string

record category =
  category_id :: string
  category_name :: string

record stream =
  stream_id :: nat
  stream_name :: string
  epg_channel_id :: string
  stream_icon :: string
  stream_category_id :: string

record groupDesc =
  grp_id :: string
  grp_name :: string
  grp_sourceId :: nat
  grp_sourceType :: sourceType

text \<open>How an asynchronous method ends: it returns, or it throws in the given state.\<close>

datatype 'a completion = Normal 'a | Threw 'a

definition categoryGroup :: "nat \<Rightarrow> category \<Rightarrow> groupDesc" where
  "categoryGroup sid cat =
     \<lparr>grp_id = ''xtream_'' @ showNat sid @ ''_'' @ category_id cat,
      grp_name = category_name cat,
      grp_sourceId = sid,
      grp_sourceType = Xtream\<rparr>"

text \<open>
  \<^verbatim>\<open>categories.find(c => c.category_id === stream.category_id)?.category_name || 'Uncategorized'\<close>
\<close>

definition categoryTitle :: "category list \<Rightarrow> string \<Rightarrow> string" where
  "categoryTitle categories cid =
     (case find (\<lambda>c. category_id c = cid) categories of
        Some c \<Rightarrow> (if category_name c = [] then ''Uncategorized'' else category_name c)
      | None \<Rightarrow> ''Uncategorized'')"

definition xtreamChannel :: "nat \<Rightarrow> category list \<Rightarrow> stream \<Rightarrow> channel" where
  "xtreamChannel sid categories st =
     \<lparr>chId = ''xtream_'' @ showNat sid @ ''_'' @ showNat (stream_id st),
      streamId = Some (stream_id st),
      name = stream_name st,
      tvgId = epg_channel_id st,
      tvgLogo = stream_icon st,
      groupId = ''xtream_'' @ showNat sid @ ''_'' @ stream_category_id st,
      groupTitle = categoryTitle categories (stream_category_id st),
      sourceId = sid,
      sourceType = Xtream,
      url = []\<rparr>"

text \<open>The key of the deduplication: the template literal \<^verbatim>\<open>`${ch.groupTitle}|${ch.name}`\<close>.\<close>

definition dedupKey :: "channel \<Rightarrow> string" where
  "dedupKey ch = groupTitle ch @ ''|'' @ name ch"

text \<open>The loop over \<^verbatim>\<open>channelList\<close>, with its two accumulators.\<close>

fun uniqueLoop :: "string set \<Rightarrow> channel list \<Rightarrow> channel list \<Rightarrow> channel list" where
  "uniqueLoop seen uniqueChannels [] = uniqueChannels"
| "uniqueLoop seen uniqueChannels (ch # rest) =
     (if dedupKey ch \<notin> seen
      then uniqueLoop (insert (dedupKey ch) seen) (uniqueChannels @ [ch]) rest
      else uniqueLoop seen uniqueChannels rest)"

section \<open>The state of the component\<close>

datatype heart = FilledHeart | EmptyHeart

record favoriteBtn =
  btnActive :: bool
  btnInner :: heart
  btnTitle :: string

text \<open>
  A \<^verbatim>\<open>.channel-item\<close> element. \<open>nodeId\<close> is the identity of the DOM node: a handle
  taken by \<^verbatim>\<open>querySelectorAll\<close> keeps pointing at that node, whatever is rendered
  later.
\<close>

record channelItem =
  nodeId :: nat
  dataChannelId :: string
  dataSourceId :: nat
  dataSourceType :: sourceType
  dataStreamId :: string
  dataUrl :: string
  itemActive :: bool
  itemHidden :: bool
  channelName :: string
  favBtn :: favoriteBtn

text \<open>A \<^verbatim>\<open>.channel-group\<close> element: its header and its \<^verbatim>\<open>.group-channels\<close>.\<close>

record channelGroup =
  dataGroup :: string
  headerHidden :: bool
  headerCollapsed :: bool
  headerFavorites :: bool
  headerDisplayNone :: bool
  groupCount :: nat
  groupItems :: "channelItem list"

text \<open>
  What \<^verbatim>\<open>this.container\<close> shows: nothing, the empty-state message (with or without
  a search term), or the list element with the loader under it.
\<close>

datatype containerView = Blank | EmptyState bool | ListView

text \<open>The calls that leave the component, in the order they are issued.\<close>

datatype effect =
    FavoritesAdd nat string
  | FavoritesRemove nat string
  | GetStreamUrl nat "nat option"
  | PlayerPlay string string

text \<open>
  The fields of the component, the elements it reads (\<open>searchInput\<close> is the value of
  the search box, \<open>showHiddenCheckbox\<close> is \<open>None\<close> when the page has no such checkbox)
  and the elements it builds. \<open>listContainer\<close> is the element \<^verbatim>\<open>this.listContainer\<close>
  points at; it is on the page exactly when \<open>container\<close> is \<open>ListView\<close>. \<open>nextNode\<close> is
  the first node no element has used yet, and \<open>effects\<close> collects the calls to the remote
  API and to the player.

  What the model takes for granted: \<^verbatim>\<open>render\<close> has run once, so that
  \<^verbatim>\<open>this.groupedChannels\<close> and \<^verbatim>\<open>this.listContainer\<close> are defined; names, titles and
  ids are strings, and the markup built from them parses back into the elements it
  describes; the ids of the entities in the collection stand in a selector as they are
  (\<open>selectorSafe\<close> below), so that the selectors \<^verbatim>\<open>updateFavoritesGroup\<close> and
  \<^verbatim>\<open>selectChannel\<close> build from an entity they hold are the tests of the attributes;
  no group title is the name of a member of \<^verbatim>\<open>Object.prototype\<close>, so that
  \<^verbatim>\<open>this.groupedChannels\<close> is an association list in insertion order.
\<close>

record state =
  channels :: "channel list"
  groups :: "groupDesc list"
  hiddenItems :: "string set"
  collapsedGroups :: "string set"
  visibleFavorites :: "string set"
  currentChannel :: "channel option"
  searchInput :: string
  showHiddenCheckbox :: "bool option"
  currentBatch :: nat
  batchSize :: nat
  filteredChannels :: "channel list"
  groupedChannels :: "(string \<times> channel list) list"
  sortedGroups :: "string list"
  showHidden :: bool
  container :: containerView
  listContainer :: "channelGroup list"
  loaderOpaque :: bool
  loaderDisplayNone :: bool
  nextNode :: nat
  effects :: "effect list"

text \<open>
  \<^verbatim>\<open>loadXtreamChannels(sourceId, append)\<close>; \<open>appendFlag\<close> is the parameter
  \<^verbatim>\<open>append\<close>, \<open>cats\<close> and \<open>strs\<close> are what the two requests give, \<open>None\<close> when
  the request throws.
\<close>

definition loadXtreamChannels ::
  "nat \<Rightarrow> bool \<Rightarrow> category list option \<Rightarrow> stream list option \<Rightarrow> state \<Rightarrow> state completion" where
  "loadXtreamChannels sid appendFlag cats strs s =
     (let s1 = (if \<not> appendFlag then s\<lparr>channels := [], groups := []\<rparr> else s) in
      case cats of
        None \<Rightarrow> Threw s1
      | Some categories \<Rightarrow>
          (case strs of
             None \<Rightarrow> Threw s1
           | Some streams \<Rightarrow>
               (let categoryGroups = map (categoryGroup sid) categories;
                    s2 = s1\<lparr>groups := groups s1 @ categoryGroups\<rparr>;
                    channelList = map (xtreamChannel sid categories) streams;
                    uniqueChannels = uniqueLoop {} [] channelList
                in Normal (s2\<lparr>channels := channels s2 @ uniqueChannels\<rparr>))))"

section \<open>Flags\<close>

text \<open>
  \<^verbatim>\<open>isHidden(type, sourceId, itemId)\<close> and \<^verbatim>\<open>isFavorite(sourceId, channelId)\<close>: both sets
  hold the string signatures the template literals build.
\<close>

definition isHidden :: "state \<Rightarrow> string \<Rightarrow> nat \<Rightarrow> string \<Rightarrow> bool" where
  "isHidden s type sid itemId = (type @ '':'' @ showNat sid @ '':'' @ itemId \<in> hiddenItems s)"

definition favoriteKey :: "nat \<Rightarrow> string \<Rightarrow> string" where
  "favoriteKey sid cid = showNat sid @ '':'' @ cid"

definition isFavorite :: "state \<Rightarrow> nat \<Rightarrow> string \<Rightarrow> bool" where
  "isFavorite s sid cid = (favoriteKey sid cid \<in> visibleFavorites s)"

section \<open>Filtering, grouping and sorting (the first half of render)\<close>

text \<open>
  \<^verbatim>\<open>Array.prototype.sort(compare)\<close> is a stable sort: whenever \<open>compare\<close> is a
  consistent comparator its result is the one stable sorted arrangement, which insertion
  from the right computes. \<open>compare a b \<le> 0\<close> reads "a does not come after b".
\<close>

fun insortBy :: "('a \<Rightarrow> 'a \<Rightarrow> int) \<Rightarrow> 'a \<Rightarrow> 'a list \<Rightarrow> 'a list" where
  "insortBy compare x [] = [x]"
| "insortBy compare x (y # ys) =
     (if compare x y \<le> 0 then x # y # ys else y # insortBy compare x ys)"

definition sortBy :: "('a \<Rightarrow> 'a \<Rightarrow> int) \<Rightarrow> 'a list \<Rightarrow> 'a list" where
  "sortBy compare xs = foldr (insortBy compare) xs []"

text \<open>
  \<^verbatim>\<open>String.prototype.localeCompare\<close> belongs to the platform (its order depends on the
  locale), so it is a parameter \<open>lc\<close> of everything that sorts. What the properties
  below need of it is that it is a consistent comparator.
\<close>

definition consistentComparator :: "('a \<Rightarrow> 'a \<Rightarrow> int) \<Rightarrow> bool" where
  "consistentComparator lc =
     ((\<forall>a b. lc a b \<le> 0 \<or> lc b a \<le> 0)
      \<and> (\<forall>a b c. lc a b \<le> 0 \<longrightarrow> lc b c \<le> 0 \<longrightarrow> lc a c \<le> 0))"

text \<open>The comparator of step 4, "Sort Groups".\<close>

definition groupCompare :: "(string \<Rightarrow> string \<Rightarrow> int) \<Rightarrow> string \<Rightarrow> string \<Rightarrow> int" where
  "groupCompare lc a b =
     (if a = ''Favorites'' then - 1 else if b = ''Favorites'' then 1 else lc a b)"

definition matchesSearch :: "string \<Rightarrow> channel \<Rightarrow> bool" where
  "matchesSearch searchTerm ch =
     (includesStr (toLowerCase (name ch)) searchTerm
      \<or> (groupTitle ch \<noteq> [] \<and> includesStr (toLowerCase (groupTitle ch)) searchTerm))"

definition groupKey :: "channel \<Rightarrow> string" where
  "groupKey ch = (if groupTitle ch = [] then ''Uncategorized'' else groupTitle ch)"

text \<open>
  Step 2, one round of the \<^verbatim>\<open>forEach\<close>: push the channel on the list of its key,
  creating the key at the end of the object when it is new.
\<close>

fun pushChannel :: "string \<Rightarrow> channel \<Rightarrow> (string \<times> channel list) list \<Rightarrow> (string \<times> channel list) list" where
  "pushChannel k ch [] = [(k, [ch])]"
| "pushChannel k ch ((k', chs) # rest) =
     (if k' = k then (k', chs @ [ch]) # rest else (k', chs) # pushChannel k ch rest)"

definition groupAll :: "channel list \<Rightarrow> (string \<times> channel list) list" where
  "groupAll chs = foldl (\<lambda>grouped ch. pushChannel (groupKey ch) ch grouped) [] chs"

text \<open>\<^verbatim>\<open>obj[k] = v\<close>: an existing key keeps its place.\<close>

fun assign :: "string \<Rightarrow> 'v \<Rightarrow> (string \<times> 'v) list \<Rightarrow> (string \<times> 'v) list" where
  "assign k v [] = [(k, v)]"
| "assign k v ((k', v') # rest) =
     (if k' = k then (k, v) # rest else (k', v') # assign k v rest)"

text \<open>
  \<^verbatim>\<open>Object.keys\<close>: the keys that are array indices (canonical decimal numbers up to
  \<open>2\<^sup>3\<^sup>2 - 2\<close>) come first, in ascending numeric order, then the other keys in insertion
  order.
\<close>

fun decimalValue :: "int \<Rightarrow> string \<Rightarrow> int option" where
  "decimalValue acc [] = Some acc"
| "decimalValue acc (c # cs) =
     (case map_of (zip ''0123456789'' [0, 1, 2, 3, 4, 5, 6, 7, 8, 9]) c of
        None \<Rightarrow> None
      | Some d \<Rightarrow> decimalValue (10 * acc + d) cs)"

definition arrayIndex :: "string \<Rightarrow> int option" where
  "arrayIndex k =
     (if k = [] \<or> (hd k = CHR ''0'' \<and> k \<noteq> ''0'') then None
      else case decimalValue 0 k of
             None \<Rightarrow> None
           | Some n \<Rightarrow> (if n \<le> 4294967294 then Some n else None))"

definition objectKeys :: "(string \<times> 'v) list \<Rightarrow> string list" where
  "objectKeys obj =
     sort_key (\<lambda>k. the (arrayIndex k)) (filter (\<lambda>k. arrayIndex k \<noteq> None) (map fst obj))
     @ filter (\<lambda>k. arrayIndex k = None) (map fst obj)"

text \<open>\<^verbatim>\<open>this.groupedChannels[groupName]\<close>, for a name that is a key.\<close>

definition members :: "state \<Rightarrow> string \<Rightarrow> channel list" where
  "members s g = (case map_of (groupedChannels s) g of Some chs \<Rightarrow> chs | None \<Rightarrow> [])"

text \<open>
  Lines 486 to 532 of \<^verbatim>\<open>render\<close>: reset of the batching, filter, group, Favorites,
  sorted group order.
\<close>

definition favoritedChannels :: "state \<Rightarrow> channel list" where
  "favoritedChannels s = filter (\<lambda>ch. isFavorite s (sourceId ch) (chId ch)) (channels s)"

definition buildView :: "(string \<Rightarrow> string \<Rightarrow> int) \<Rightarrow> state \<Rightarrow> state" where
  "buildView lc s =
     (let searchTerm = toLowerCase (searchInput s);
          showHiddenNow = (case showHiddenCheckbox s of Some checked \<Rightarrow> checked | None \<Rightarrow> False);
          filtered = (if searchTerm \<noteq> [] then filter (matchesSearch searchTerm) (channels s)
                      else channels s);
          grouped = groupAll filtered;
          favorited = favoritedChannels s;
          grouped' = (if favorited \<noteq> []
                      then assign ''Favorites'' (sortBy (\<lambda>a b. lc (name a) (name b)) favorited) grouped
                      else grouped)
      in s\<lparr>currentBatch := 0,
            batchSize := 100,
            container := Blank,
            filteredChannels := filtered,
            groupedChannels := grouped',
            sortedGroups := sortBy (groupCompare lc) (objectKeys grouped'),
            showHidden := showHiddenNow\<rparr>)"

section \<open>The windowed renderer\<close>

definition favoriteButton :: "bool \<Rightarrow> favoriteBtn" where
  "favoriteButton fav =
     \<lparr>btnActive = fav,
      btnInner = (if fav then FilledHeart else EmptyHeart),
      btnTitle = (if fav then ''Remove from Favorites'' else ''Add to Favorites'')\<rparr>"

definition isActive :: "state \<Rightarrow> channel \<Rightarrow> bool" where
  "isActive s ch = (case currentChannel s of Some cur \<Rightarrow> chId cur = chId ch | None \<Rightarrow> False)"

definition streamIdText :: "channel \<Rightarrow> string" where
  "streamIdText ch = (case streamId ch of Some n \<Rightarrow> (if n = 0 then [] else showNat n) | None \<Rightarrow> [])"

text \<open>
  \<open>isFavoritesGroup\<close> and \<open>channelHidden\<close> of the two loops; \<open>inFavorites\<close> is the value
  of \<open>isFavoritesGroup\<close> for the group being rendered.
\<close>

definition isFavoritesGroup :: "string \<Rightarrow> bool" where
  "isFavoritesGroup groupName = (groupName = ''Favorites'')"

definition channelHidden :: "state \<Rightarrow> bool \<Rightarrow> channel \<Rightarrow> bool" where
  "channelHidden s inFavorites ch =
     (\<not> inFavorites \<and> isHidden s ''channel'' (sourceId ch) (chId ch))"

definition itemOf :: "state \<Rightarrow> bool \<Rightarrow> nat \<Rightarrow> channel \<Rightarrow> channelItem" where
  "itemOf s inFavorites n ch =
     \<lparr>nodeId = n,
      dataChannelId = chId ch,
      dataSourceId = sourceId ch,
      dataSourceType = sourceType ch,
      dataStreamId = streamIdText ch,
      dataUrl = url ch,
      itemActive = isActive s ch,
      itemHidden = channelHidden s inFavorites ch,
      channelName = name ch,
      favBtn = favoriteButton (isFavorite s (sourceId ch) (chId ch))\<rparr>"

text \<open>The inner loop over the channels of one group; \<open>n\<close> is the next free node.\<close>

fun renderItems :: "state \<Rightarrow> bool \<Rightarrow> nat \<Rightarrow> channel list \<Rightarrow> channelItem list" where
  "renderItems s inFavorites n [] = []"
| "renderItems s inFavorites n (ch # chs) =
     (if channelHidden s inFavorites ch \<and> \<not> showHidden s
      then renderItems s inFavorites n chs
      else itemOf s inFavorites n ch # renderItems s inFavorites (Suc n) chs)"

text \<open>\<open>groupHidden\<close> of the outer loop: decided on the source of the first channel.\<close>

definition groupHidden :: "state \<Rightarrow> string \<Rightarrow> bool" where
  "groupHidden s groupName =
     (case members s groupName of
        [] \<Rightarrow> False
      | first # _ \<Rightarrow>
          \<not> isFavoritesGroup groupName \<and> isHidden s ''group'' (sourceId first) groupName)"

text \<open>The loop over \<^verbatim>\<open>groupsToRender\<close>.\<close>

fun renderGroups :: "state \<Rightarrow> nat \<Rightarrow> string list \<Rightarrow> channelGroup list" where
  "renderGroups s n [] = []"
| "renderGroups s n (groupName # others) =
     (if members s groupName = [] then renderGroups s n others
      else if groupHidden s groupName \<and> \<not> showHidden s then renderGroups s n others
      else
        (let items = renderItems s (isFavoritesGroup groupName) n (members s groupName)
         in \<lparr>dataGroup = groupName,
              headerHidden = groupHidden s groupName,
              headerCollapsed = (groupName \<in> collapsedGroups s),
              headerFavorites = isFavoritesGroup groupName,
              headerDisplayNone = False,
              groupCount = length (members s groupName),
              groupItems = items\<rparr>
            # renderGroups s (n + length items) others))"

definition slice :: "nat \<Rightarrow> nat \<Rightarrow> 'a list \<Rightarrow> 'a list" where
  "slice start end xs = take (end - start) (drop start xs)"

definition itemTotal :: "channelGroup list \<Rightarrow> nat" where
  "itemTotal els = sum_list (map (\<lambda>el. length (groupItems el)) els)"

definition renderNextBatch :: "state \<Rightarrow> state" where
  "renderNextBatch s =
     (let start = currentBatch s * batchSize s;
          end = start + batchSize s;
          groupsToRender = slice start end (sortedGroups s)
      in if groupsToRender = [] then s\<lparr>loaderDisplayNone := True\<rparr>
         else
           (let els = renderGroups s (nextNode s) groupsToRender;
                s1 = s\<lparr>loaderOpaque := True,
                       listContainer := listContainer s @ els,
                       nextNode := nextNode s + itemTotal els,
                       currentBatch := currentBatch s + 1\<rparr>
            in if end \<ge> length (sortedGroups s) then s1\<lparr>loaderDisplayNone := True\<rparr> else s1))"

text \<open>The loop "Render initial batches" of \<^verbatim>\<open>render\<close>.\<close>

fun initialBatches :: "nat \<Rightarrow> state \<Rightarrow> state" where
  "initialBatches 0 s = s"
| "initialBatches (Suc i) s =
     (if currentBatch s * batchSize s \<ge> length (sortedGroups s) then s
      else initialBatches i (renderNextBatch s))"

definition render :: "(string \<Rightarrow> string \<Rightarrow> int) \<Rightarrow> state \<Rightarrow> state" where
  "render lc s =
     (let s1 = buildView lc s
      in if sortedGroups s1 = []
         then s1\<lparr>container := EmptyState (toLowerCase (searchInput s) \<noteq> [])\<rparr>
         else initialBatches 10
                (s1\<lparr>container := ListView,
                     listContainer := [],
                     loaderOpaque := False,
                     loaderDisplayNone := False\<rparr>))"

text \<open>
  The intersection observer calls \<^verbatim>\<open>renderNextBatch\<close> while the loader is on the page
  and displayed. \<open>fireUntilRetired\<close> fires it until the loader is retired.
\<close>

definition loaderRetired :: "state \<Rightarrow> bool" where
  "loaderRetired s = (container s \<noteq> ListView \<or> loaderDisplayNone s)"

text \<open>An upper bound on the batches still to come, zero when the loader is retired.\<close>

definition remaining :: "state \<Rightarrow> nat" where
  "remaining s =
     (if loaderRetired s then 0
      else Suc (length (sortedGroups s) - currentBatch s * batchSize s))"

function fireUntilRetired :: "state \<Rightarrow> state" where
  "fireUntilRetired s = (if loaderRetired s then s else fireUntilRetired (renderNextBatch s))"
  by pat_completeness auto
termination
  by (relation "measure remaining")
     (auto simp: remaining_def loaderRetired_def renderNextBatch_def Let_def slice_def)

declare fireUntilRetired.simps [simp del]

text \<open>\<^verbatim>\<open>getVisibleChannels\<close>.\<close>

definition getVisibleChannels :: "state \<Rightarrow> channel list" where
  "getVisibleChannels s =
     (let showHiddenNow = (case showHiddenCheckbox s of Some checked \<Rightarrow> checked | None \<Rightarrow> False)
      in filter (\<lambda>ch. if showHiddenNow then True
                      else \<not> isHidden s ''channel'' (sourceId ch) (chId ch)
                           \<and> \<not> isHidden s ''group'' (sourceId ch) (groupTitle ch))
           (channels s))"

section \<open>The optimistic favorite toggle\<close>

text \<open>\<^verbatim>\<open>createChannelElement\<close>: the new row of the Favorites group, on node \<open>n\<close>.\<close>

definition createChannelElement :: "state \<Rightarrow> nat \<Rightarrow> channel \<Rightarrow> channelItem" where
  "createChannelElement s n ch =
     \<lparr>nodeId = n,
      dataChannelId = chId ch,
      dataSourceId = sourceId ch,
      dataSourceType = sourceType ch,
      dataStreamId = streamIdText ch,
      dataUrl = url ch,
      itemActive = isActive s ch,
      itemHidden = False,
      channelName = name ch,
      favBtn = \<lparr>btnActive = True, btnInner = FilledHeart, btnTitle = ''Remove from Favorites''\<rparr>\<rparr>"

text \<open>\<^verbatim>\<open>splice(existingIdx, 1)\<close> at the first element that matches.\<close>

fun removeFirst :: "('a \<Rightarrow> bool) \<Rightarrow> 'a list \<Rightarrow> 'a list" where
  "removeFirst P [] = []"
| "removeFirst P (x # xs) = (if P x then xs else x # removeFirst P xs)"

text \<open>What \<^verbatim>\<open>querySelector\<close> does to the element it returns: the first match only.\<close>

fun updateFirst :: "('a \<Rightarrow> bool) \<Rightarrow> ('a \<Rightarrow> 'a) \<Rightarrow> 'a list \<Rightarrow> 'a list" where
  "updateFirst P f [] = []"
| "updateFirst P f (x # xs) = (if P x then f x # xs else x # updateFirst P f xs)"

definition sameItem :: "channel \<Rightarrow> channelItem \<Rightarrow> bool" where
  "sameItem ch it = (dataChannelId it = chId ch \<and> dataSourceId it = sourceId ch)"

text \<open>
  Part 2 of \<^verbatim>\<open>updateFavoritesGroup\<close>, on the Favorites element that was found: add
  or remove the row, set the count, hide or show the header.
\<close>

definition patchFavoritesElement ::
  "state \<Rightarrow> channel \<Rightarrow> bool \<Rightarrow> channel list \<Rightarrow> channelGroup \<Rightarrow> channelGroup" where
  "patchFavoritesElement s ch isAdded favArray el =
     (let items = (if isAdded
                   then (if find (sameItem ch) (groupItems el) = None
                         then groupItems el @ [createChannelElement s (nextNode s) ch]
                         else groupItems el)
                   else removeFirst (sameItem ch) (groupItems el))
      in el\<lparr>groupItems := items,
             groupCount := length favArray,
             headerHidden := (favArray = []),
             headerDisplayNone := (favArray = [])\<rparr>)"

definition isFavoritesHeader :: "channelGroup \<Rightarrow> bool" where
  "isFavoritesHeader el = (dataGroup el = ''Favorites'')"

text \<open>\<^verbatim>\<open>updateFavoritesGroup(channel, isAdded)\<close>.\<close>

definition updateFavoritesGroup ::
  "(string \<Rightarrow> string \<Rightarrow> int) \<Rightarrow> channel \<Rightarrow> bool \<Rightarrow> state \<Rightarrow> state" where
  "updateFavoritesGroup lc ch isAdded s =
     (let s1 = (if map_of (groupedChannels s) ''Favorites'' = None
                then s\<lparr>groupedChannels := groupedChannels s @ [(''Favorites'', [])]\<rparr>
                else s);
          same = (\<lambda>c. chId c = chId ch \<and> sourceId c = sourceId ch);
          old = members s1 ''Favorites'';
          favArray = (if isAdded then (if find same old = None then old @ [ch] else old)
                      else removeFirst same old);
          s2 = s1\<lparr>groupedChannels := assign ''Favorites'' favArray (groupedChannels s1)\<rparr>
      in case find isFavoritesHeader (listContainer s2) of
           None \<Rightarrow> (if isAdded \<and> length favArray = 1 then render lc s2 else s2)
         | Some groupHeader \<Rightarrow>
             s2\<lparr>listContainer :=
                   updateFirst isFavoritesHeader (patchFavoritesElement s2 ch isAdded favArray)
                     (listContainer s2),
                 nextNode :=
                   (if isAdded \<and> find (sameItem ch) (groupItems groupHeader) = None
                    then Suc (nextNode s2) else nextNode s2)\<rparr>)"

text \<open>
  The favorite buttons of the rows that carry an id and a source id, as far as they are
  on the page: the nodes of these rows.
\<close>

definition favoriteBtns :: "state \<Rightarrow> nat \<Rightarrow> string \<Rightarrow> nat list" where
  "favoriteBtns s sid cid =
     (if container s = ListView
      then map nodeId
             (filter (\<lambda>it. dataChannelId it = cid \<and> dataSourceId it = sid)
                (concat (map groupItems (listContainer s))))
      else [])"

text \<open>\<^verbatim>\<open>btns.forEach(...)\<close>: the rows still in the list are the ones a change shows on.\<close>

definition forEachBtn ::
  "nat list \<Rightarrow> (favoriteBtn \<Rightarrow> favoriteBtn) \<Rightarrow> channelGroup list \<Rightarrow> channelGroup list" where
  "forEachBtn btns f els =
     map (\<lambda>el. el\<lparr>groupItems :=
                    map (\<lambda>it. if nodeId it \<in> set btns then it\<lparr>favBtn := f (favBtn it)\<rparr> else it)
                      (groupItems el)\<rparr>)
       els"

definition markFavorite :: "favoriteBtn \<Rightarrow> favoriteBtn" where
  "markFavorite btn = btn\<lparr>btnActive := True, btnInner := FilledHeart, btnTitle := ''Remove from Favorites''\<rparr>"

definition unmarkFavorite :: "favoriteBtn \<Rightarrow> favoriteBtn" where
  "unmarkFavorite btn = btn\<lparr>btnActive := False, btnInner := EmptyHeart, btnTitle := ''Add to Favorites''\<rparr>"

text \<open>The two loops of the \<^verbatim>\<open>catch\<close> block set the class and the content only.\<close>

definition revertToFavorite :: "favoriteBtn \<Rightarrow> favoriteBtn" where
  "revertToFavorite btn = btn\<lparr>btnActive := True, btnInner := FilledHeart\<rparr>"

definition revertToPlain :: "favoriteBtn \<Rightarrow> favoriteBtn" where
  "revertToPlain btn = btn\<lparr>btnActive := False, btnInner := EmptyHeart\<rparr>"

definition findChannel :: "state \<Rightarrow> nat \<Rightarrow> string \<Rightarrow> channel option" where
  "findChannel s sid cid = find (\<lambda>c. sourceId c = sid \<and> chId c = cid) (channels s)"

text \<open>
  A \<^verbatim>\<open>NodeList\<close>, as what its \<^verbatim>\<open>forEach\<close> does: given the patch of one button and
  the state of the moment, the state with the listed nodes patched. The list is taken
  once; a node that has left the page since is patched all the same, which shows nowhere.
\<close>

type_synonym nodeList = "(favoriteBtn \<Rightarrow> favoriteBtn) \<Rightarrow> state \<Rightarrow> state"

definition buttonList :: "nat list \<Rightarrow> nodeList" where
  "buttonList btns f s = s\<lparr>listContainer := forEachBtn btns f (listContainer s)\<rparr>"

text \<open>
  The selector of \<^verbatim>\<open>toggleFavorite\<close> holds the id between double quotes, in
  \<^verbatim>\<open>[data-channel-id=...]\<close>, followed by the source id in the same way, and asks for the
  \<^verbatim>\<open>.favorite-btn\<close> elements under such a row. An id without a double quote, a
  backslash, a line feed, a carriage return, a form feed or a null character is the value
  of the quoted string as it stands: the selector is well-formed and asks for the rows
  that carry this id.
\<close>

definition selectorSafe :: "string \<Rightarrow> bool" where
  "selectorSafe cid =
     list_all (\<lambda>c. c \<notin> set [CHR 0x22, CHR 0x5C, CHR 0x0A, CHR 0x0D, CHR 0x0C, CHR 0x00]) cid"

text \<open>
  Any other id changes the selector. Either the platform refuses the text and
  \<^verbatim>\<open>querySelectorAll\<close> throws a \<^verbatim>\<open>SyntaxError\<close> (so for an id like \<open>gh\<close>, a double
  quote, \<open>ost\<close>: the quote closes the string, and no closing bracket follows), or the
  text is another selector (a double quote followed by a closing bracket and more
  selectors). What the platform does with the text is the parameter \<open>css\<close>: \<open>None\<close> for
  the \<^verbatim>\<open>SyntaxError\<close>, else the list of the nodes that the other selector finds on the
  page. These nodes are elements of any kind, and the assignments of the loops (class,
  content, title) can change any part of the page, but no field of the component.
\<close>

definition otherList :: "nodeList \<Rightarrow> nodeList" where
  "otherList found f s =
     s\<lparr>container := container (found f s),
       listContainer := listContainer (found f s),
       loaderOpaque := loaderOpaque (found f s),
       loaderDisplayNone := loaderDisplayNone (found f s),
       showHiddenCheckbox := showHiddenCheckbox (found f s)\<rparr>"

type_synonym selectorParser = "nat \<Rightarrow> string \<Rightarrow> (state \<Rightarrow> nodeList) option"

text \<open>
  \<^verbatim>\<open>document.querySelectorAll\<close> on the selector of \<^verbatim>\<open>toggleFavorite\<close>, in the state
  \<open>s\<close>: \<open>None\<close> when it throws.
\<close>

definition querySelectorAll :: "selectorParser \<Rightarrow> nat \<Rightarrow> string \<Rightarrow> state \<Rightarrow> nodeList option" where
  "querySelectorAll css sid cid s =
     (if selectorSafe cid then Some (buttonList (favoriteBtns s sid cid))
      else case css sid cid of
             None \<Rightarrow> None
           | Some found \<Rightarrow> Some (otherList (found s)))"

text \<open>
  \<^verbatim>\<open>toggleFavorite(sourceId, channelId)\<close>; \<open>remoteOk\<close> tells whether the remote add or
  remove call succeeds. The selector is evaluated before the \<^verbatim>\<open>try\<close> statement: when it
  throws, the method throws, and nothing has been written or called. An error inside the
  \<^verbatim>\<open>try\<close> statement is caught, and the method returns after the \<^verbatim>\<open>catch\<close> block. The
  notification of the EPG guide after a success leaves the component and is not part of
  its state.
\<close>

definition toggleFavorite ::
  "(string \<Rightarrow> string \<Rightarrow> int) \<Rightarrow> selectorParser \<Rightarrow> bool \<Rightarrow> nat \<Rightarrow> string \<Rightarrow> state
     \<Rightarrow> state completion" where
  "toggleFavorite lc css remoteOk sid cid s =
     (let key = favoriteKey sid cid;
          wasFavorite = (key \<in> visibleFavorites s)
      in case querySelectorAll css sid cid s of
           None \<Rightarrow> Threw s
         | Some btns \<Rightarrow>
             (let s1 = (if wasFavorite
                        then btns unmarkFavorite
                               (s\<lparr>visibleFavorites := visibleFavorites s - {key}\<rparr>)
                        else btns markFavorite
                               (s\<lparr>visibleFavorites := insert key (visibleFavorites s)\<rparr>));
                  s2 = (case findChannel s1 sid cid of
                          Some ch \<Rightarrow> updateFavoritesGroup lc ch (\<not> wasFavorite) s1
                        | None \<Rightarrow> s1);
                  s3 = s2\<lparr>effects := effects s2
                              @ [if wasFavorite then FavoritesRemove sid cid
                                 else FavoritesAdd sid cid]\<rparr>
              in if remoteOk then Normal s3
                 else if wasFavorite
                 then (let s4 = btns revertToFavorite
                                  (s3\<lparr>visibleFavorites := insert key (visibleFavorites s3)\<rparr>)
                       in case findChannel s4 sid cid of
                            Some ch \<Rightarrow> Normal (updateFavoritesGroup lc ch True s4)
                          | None \<Rightarrow> Normal s4)
                 else (let s4 = btns revertToPlain
                                  (s3\<lparr>visibleFavorites := visibleFavorites s3 - {key}\<rparr>)
                       in case findChannel s4 sid cid of
                            Some ch \<Rightarrow> Normal (updateFavoritesGroup lc ch False s4)
                          | None \<Rightarrow> Normal s4)))"

text \<open>The state a call leaves the component in, however it ends, and whether it threw.\<close>

definition afterCall :: "state completion \<Rightarrow> state" where
  "afterCall c = (case c of Normal s \<Rightarrow> s | Threw s \<Rightarrow> s)"

definition threw :: "state completion \<Rightarrow> bool" where
  "threw c = (case c of Normal s \<Rightarrow> False | Threw s \<Rightarrow> True)"

section \<open>Selection\<close>

text \<open>
  The first element of the container with the given \<^verbatim>\<open>data-channel-id\<close> gets the
  class \<^verbatim>\<open>active\<close>, after every row lost it.
\<close>

fun activateFirst :: "string \<Rightarrow> channelGroup list \<Rightarrow> channelGroup list" where
  "activateFirst cid [] = []"
| "activateFirst cid (el # els) =
     (if find (\<lambda>it. dataChannelId it = cid) (groupItems el) = None
      then el # activateFirst cid els
      else el\<lparr>groupItems :=
                updateFirst (\<lambda>it. dataChannelId it = cid) (\<lambda>it. it\<lparr>itemActive := True\<rparr>)
                  (groupItems el)\<rparr> # els)"

definition clearActive :: "channelGroup list \<Rightarrow> channelGroup list" where
  "clearActive els =
     map (\<lambda>el. el\<lparr>groupItems := map (\<lambda>it. it\<lparr>itemActive := False\<rparr>) (groupItems el)\<rparr>) els"

text \<open>
  \<^verbatim>\<open>selectChannel(dataset)\<close>; \<open>channelId\<close> is \<^verbatim>\<open>dataset.channelId\<close> and \<open>streamUrl\<close>
  is the answer of the stream-URL request, \<open>None\<close> when it throws.
\<close>

definition selectChannel :: "string option \<Rightarrow> string \<Rightarrow> state \<Rightarrow> state completion" where
  "selectChannel streamUrl channelId s =
     (case find (\<lambda>c. chId c = channelId) (channels s) of
        None \<Rightarrow> Normal s
      | Some ch \<Rightarrow>
          (let s1 = s\<lparr>currentChannel := Some ch,
                      listContainer :=
                        (if container s = ListView
                         then activateFirst (chId ch) (clearActive (listContainer s))
                         else listContainer s)\<rparr>
           in if sourceType ch = Xtream
              then (let s2 = s1\<lparr>effects := effects s1 @ [GetStreamUrl (sourceId ch) (streamId ch)]\<rparr>
                    in case streamUrl of
                         None \<Rightarrow> Threw s2
                       | Some u \<Rightarrow> Normal (s2\<lparr>effects := effects s2 @ [PlayerPlay (chId ch) u]\<rparr>))
              else Normal (s1\<lparr>effects := effects s1 @ [PlayerPlay (chId ch) (url ch)]\<rparr>)))"

text \<open>What the search keeps: everything when the lowercased term is empty.\<close>

definition searchKeeps :: "state \<Rightarrow> channel \<Rightarrow> bool" where
  "searchKeeps s ch =
     (toLowerCase (searchInput s) = [] \<or> matchesSearch (toLowerCase (searchInput s)) ch)"

section \<open>Concrete inputs\<close>

text \<open>
  A comparator to run the component with: it compares the code units of two strings, as
  \<^verbatim>\<open>localeCompare\<close> orders strings of upper-case letters or of lower-case letters.
\<close>

fun codeUnitCompare :: "string \<Rightarrow> string \<Rightarrow> int" where
  "codeUnitCompare [] [] = 0"
| "codeUnitCompare [] (y # ys) = - 1"
| "codeUnitCompare (x # xs) [] = 1"
| "codeUnitCompare (x # xs) (y # ys) =
     (if (of_char x :: nat) < of_char y then - 1
      else if (of_char y :: nat) < of_char x then 1
      else codeUnitCompare xs ys)"

text \<open>
  The component as its constructor leaves it (with a show-hidden checkbox, unchecked), an
  entity of a playlist source, and the collection of three entities of the specification.
\<close>

definition newChannelList :: state where
  "newChannelList =
     \<lparr>channels = [], groups = [], hiddenItems = {}, collapsedGroups = {}, visibleFavorites = {},
      currentChannel = None, searchInput = [], showHiddenCheckbox = Some False,
      currentBatch = 0, batchSize = 0, filteredChannels = [], groupedChannels = [],
      sortedGroups = [], showHidden = False, container = Blank, listContainer = [],
      loaderOpaque = False, loaderDisplayNone = False, nextNode = 0, effects = []\<rparr>"

definition entity :: "string \<Rightarrow> nat \<Rightarrow> string \<Rightarrow> string \<Rightarrow> channel" where
  "entity i sid g n =
     \<lparr>chId = i, streamId = None, name = n, tvgId = [], tvgLogo = [], groupId = [],
      groupTitle = g, sourceId = sid, sourceType = M3u, url = []\<rparr>"

definition threeEntities :: state where
  "threeEntities =
     newChannelList\<lparr>channels := [entity ''a'' 1 ''News'' ''CNN'', entity ''b'' 1 ''News'' ''BBC'',
                                  entity ''c'' 1 ''Sports'' ''ESPN'']\<rparr>"

text \<open>What is on the page: the groups of the list element when the container shows it.\<close>

definition renderedGroups :: "state \<Rightarrow> channelGroup list" where
  "renderedGroups s = (if container s = ListView then listContainer s else [])"

text \<open>The rendered rows, group by group: the source id and the entity id each row carries.\<close>

definition rowsOf :: "state \<Rightarrow> (string \<times> (nat \<times> string) list) list" where
  "rowsOf s =
     map (\<lambda>el. (dataGroup el, map (\<lambda>it. (dataSourceId it, dataChannelId it)) (groupItems el)))
       (renderedGroups s)"

text \<open>
  The two tests of the renderer, as predicates: a group gets a header unless its member
  list is empty or it is hidden while show-hidden is off; a member gets a row unless it is
  individually hidden while show-hidden is off (never so inside Favorites).
\<close>

definition groupEmitted :: "state \<Rightarrow> string \<Rightarrow> bool" where
  "groupEmitted s g = (members s g \<noteq> [] \<and> \<not> (groupHidden s g \<and> \<not> showHidden s))"

definition itemShown :: "state \<Rightarrow> string \<Rightarrow> channel \<Rightarrow> bool" where
  "itemShown s g ch = (\<not> (channelHidden s (isFavoritesGroup g) ch \<and> \<not> showHidden s))"

text \<open>
  Two states with the same view model, and the invariant of the batching: the list holds
  the groups of the first \<open>currentBatch\<close> batches, rendered from node \<open>n0\<close> on, and the
  loader is only retired when no group is left.
\<close>

definition sameView :: "state \<Rightarrow> state \<Rightarrow> bool" where
  "sameView s' s =
     (groupedChannels s' = groupedChannels s \<and> sortedGroups s' = sortedGroups s
      \<and> hiddenItems s' = hiddenItems s \<and> showHidden s' = showHidden s
      \<and> visibleFavorites s' = visibleFavorites s \<and> collapsedGroups s' = collapsedGroups s
      \<and> currentChannel s' = currentChannel s \<and> batchSize s' = batchSize s
      \<and> container s' = container s)"

definition batched :: "nat \<Rightarrow> state \<Rightarrow> bool" where
  "batched n0 s =
     (0 < batchSize s
      \<and> listContainer s = renderGroups s n0 (take (currentBatch s * batchSize s) (sortedGroups s))
      \<and> nextNode s = n0 + itemTotal (listContainer s)
      \<and> (loaderDisplayNone s \<longrightarrow> length (sortedGroups s) \<le> currentBatch s * batchSize s))"

text \<open>The favorite buttons of one entity that are on the page.\<close>

definition affordances :: "state \<Rightarrow> nat \<Rightarrow> string \<Rightarrow> favoriteBtn list" where
  "affordances s sid cid =
     map favBtn
       (filter (\<lambda>it. dataChannelId it = cid \<and> dataSourceId it = sid)
          (concat (map groupItems (renderedGroups s))))"

text \<open>The collection a load leaves behind, however it ends.\<close>

definition loadedChannels :: "state completion \<Rightarrow> channel list" where
  "loadedChannels c = (case c of Normal s \<Rightarrow> channels s | Threw s \<Rightarrow> channels s)"


definition oneHidden :: state where
  "oneHidden =
     newChannelList\<lparr>channels := [entity ''a'' 1 ''News'' ''CNN'', entity ''b'' 1 ''News'' ''BBC''],
                    hiddenItems := {''channel:1:b''}\<rparr>"

definition twoSources :: state where
  "twoSources =
     newChannelList\<lparr>channels := [entity ''x1'' 1 ''News'' ''CNN'', entity ''x2'' 2 ''News'' ''BBC''],
                    hiddenItems := {''group:2:News''}\<rparr>"

definition renderedThree :: state where
  "renderedThree = render codeUnitCompare threeEntities"

text \<open>
  A platform that refuses every selector whose id does not stand in it as it is, and the
  id \<open>gh\<close>, double quote, \<open>ost\<close>, which every platform refuses.
\<close>

definition rejecting :: selectorParser where
  "rejecting sid cid = None"

definition quotedId :: string where
  "quotedId = ''gh'' @ [CHR 0x22] @ ''ost''"

definition bothFavorites :: state where
  "bothFavorites = render codeUnitCompare (threeEntities\<lparr>visibleFavorites := {''1:a'', ''1:b''}\<rparr>)"

definition collidingCategories :: "category list" where
  "collidingCategories =
     [\<lparr>category_id = ''1'', category_name = ''UK|News''\<rparr>,
      \<lparr>category_id = ''2'', category_name = ''UK''\<rparr>]"

definition collidingStreams :: "stream list" where
  "collidingStreams =
     [\<lparr>stream_id = 10, stream_name = ''BBC'', epg_channel_id = [], stream_icon = [],
       stream_category_id = ''1''\<rparr>,
      \<lparr>stream_id = 20, stream_name = ''News|BBC'', epg_channel_id = [], stream_icon = [],
       stream_category_id = ''2''\<rparr>]"




section \<open>Properties of the persistence layer\<close>

text \<open>
  Claim C10. For every stored file, deleting the source \<open>i\<close> keeps exactly the sources
  whose id is not \<open>i\<close> and exactly the hidden-item records whose source id is not
  \<open>i\<close>; the favorites list is the stored one, so the favorite records of the deleted
  source are all still there (and the id counter is untouched).
\<close>

theorem sources_delete_frame:
  "\<exists>db'. sources_delete (Some i) file = Some db'
     \<and> db_sources db' = filter (\<lambda>s. src_id s \<noteq> i) (db_sources (loadDb file))
     \<and> db_hiddenItems db'
         = filter (\<lambda>h. hid_source_id h \<noteq> Some i) (db_hiddenItems (loadDb file))
     \<and> db_favorites db' = db_favorites (loadDb file)
     \<and> filter (\<lambda>f. fav_source_id f = Some i) (db_favorites db')
         = filter (\<lambda>f. fav_source_id f = Some i) (db_favorites (loadDb file))
     \<and> db_nextId db' = db_nextId (loadDb file)"
proof -
  have src: "\<And>s. strictNe (Some (src_id s)) (Some i) = (src_id s \<noteq> i)"
    by (simp add: strictNe_def)
  have hid: "\<And>h. strictNe (hid_source_id h) (Some i) = (hid_source_id h \<noteq> Some i)"
    by (simp add: strictNe_def split: option.splits)
  show ?thesis
    by (simp add: sources_delete_def saveDb_def Let_def src hid)
qed

section \<open>Deduplication of an Xtream load\<close>

text \<open>
  Per key of the loop the first item wins: the keys of the result are distinct, and the
  item the result holds for a key is the first item of the fetch order with that key.
\<close>

lemma find_append:
  "find P (xs @ ys) = (case find P xs of None \<Rightarrow> find P ys | Some x \<Rightarrow> Some x)"
  by (induction xs) simp_all

lemma uniqueLoop_first_seen:
  assumes "seen = dedupKey ` set acc" "distinct (map dedupKey acc)"
  shows "distinct (map dedupKey (uniqueLoop seen acc chs))
       \<and> find (\<lambda>c. dedupKey c = k) (uniqueLoop seen acc chs)
           = find (\<lambda>c. dedupKey c = k) (acc @ chs)"
  using assms
proof (induction chs arbitrary: seen acc)
  case Nil
  then show ?case by simp
next
  case (Cons ch chs)
  show ?case
  proof (cases "dedupKey ch \<in> seen")
    case True
    then obtain c where c: "c \<in> set acc" "dedupKey c = dedupKey ch"
      using Cons.prems(1) by auto
    have skip: "find (\<lambda>c. dedupKey c = k) (acc @ ch # chs) = find (\<lambda>c. dedupKey c = k) (acc @ chs)"
    proof (cases "dedupKey ch = k")
      case True
      with c have "find (\<lambda>c. dedupKey c = k) acc \<noteq> None"
        by (auto simp: find_None_iff)
      then show ?thesis
        by (auto simp: find_append split: option.splits)
    next
      case False
      then show ?thesis
        by (simp add: find_append split: option.splits)
    qed
    show ?thesis
      using True Cons.IH [OF Cons.prems] skip by simp
  next
    case False
    have inv: "insert (dedupKey ch) seen = dedupKey ` set (acc @ [ch])"
      using Cons.prems(1) by simp
    have dist: "distinct (map dedupKey (acc @ [ch]))"
      using Cons.prems False by simp
    show ?thesis
      using False Cons.IH [OF inv dist] by simp
  qed
qed

lemma dedup_first_wins:
  "distinct (map dedupKey (uniqueLoop {} [] chs))
   \<and> find (\<lambda>c. dedupKey c = k) (uniqueLoop {} [] chs) = find (\<lambda>c. dedupKey c = k) chs"
  using uniqueLoop_first_seen [of "{}" "[]" chs k] by simp

text \<open>
  Claim C1. The key is the group title and the name joined by a bar, not the pair: the
  category \<open>UK|News\<close> with the stream \<open>BBC\<close> and the category \<open>UK\<close> with the stream
  \<open>News|BBC\<close> are two items with different (groupTitle, name) pairs and one key. The
  load of source 7 keeps the first and drops the second, although its pair is its own.
\<close>

theorem dedup_key_collision:
  "map (\<lambda>ch. (groupTitle ch, name ch)) (map (xtreamChannel 7 collidingCategories) collidingStreams)
     = [(''UK|News'', ''BBC''), (''UK'', ''News|BBC'')]
   \<and> map (\<lambda>ch. (chId ch, groupTitle ch, name ch))
        (loadedChannels
           (loadXtreamChannels 7 False (Some collidingCategories) (Some collidingStreams)
              newChannelList))
     = [(''xtream_7_10'', ''UK|News'', ''BBC'')]"
  by code_simp

section \<open>Sorting\<close>

lemma mset_insortBy: "mset (insortBy c x xs) = add_mset x (mset xs)"
  by (induction xs) auto

lemma mset_sortBy: "mset (sortBy c xs) = mset xs"
  unfolding sortBy_def by (induction xs) (auto simp: mset_insortBy)

lemma set_sortBy: "set (sortBy c xs) = set xs"
  using mset_sortBy [of c xs] by (metis set_mset_mset)

lemma length_sortBy: "length (sortBy c xs) = length xs"
  using mset_sortBy [of c xs] by (metis size_mset)

lemma distinct_sortBy: "distinct (sortBy c xs) = distinct xs"
  by (rule mset_eq_imp_distinct_iff) (rule mset_sortBy)

lemma set_insortBy: "set (insortBy c x xs) = insert x (set xs)"
  using mset_insortBy [of c x xs] by (metis set_mset_add_mset_insert set_mset_mset)

lemma sorted_insortBy:
  assumes "consistentComparator c" "sorted_wrt (\<lambda>a b. c a b \<le> 0) xs"
  shows "sorted_wrt (\<lambda>a b. c a b \<le> 0) (insortBy c x xs)"
  using assms(2)
proof (induction xs)
  case Nil
  then show ?case by simp
next
  case (Cons y ys)
  have total: "\<And>a b. c a b \<le> 0 \<or> c b a \<le> 0"
    and trans: "\<And>a b d. c a b \<le> 0 \<Longrightarrow> c b d \<le> 0 \<Longrightarrow> c a d \<le> 0"
    using assms(1) unfolding consistentComparator_def by blast+
  show ?case
  proof (cases "c x y \<le> 0")
    case True
    with Cons.prems trans show ?thesis by auto
  next
    case False
    with total have "c y x \<le> 0" by blast
    with False Cons show ?thesis by (auto simp: set_insortBy)
  qed
qed

lemma sorted_sortBy:
  "consistentComparator c \<Longrightarrow> sorted_wrt (\<lambda>a b. c a b \<le> 0) (sortBy c xs)"
  unfolding sortBy_def by (induction xs) (auto intro: sorted_insortBy)

lemma consistent_groupCompare:
  "consistentComparator lc \<Longrightarrow> consistentComparator (groupCompare lc)"
proof -
  assume lc: "consistentComparator lc"
  have total: "\<And>a b. lc a b \<le> 0 \<or> lc b a \<le> 0"
    and trans: "\<And>a b d. lc a b \<le> 0 \<Longrightarrow> lc b d \<le> 0 \<Longrightarrow> lc a d \<le> 0"
    using lc unfolding consistentComparator_def by blast+
  have "groupCompare lc a b \<le> 0 \<or> groupCompare lc b a \<le> 0" for a b
    using total [of a b] by (simp add: groupCompare_def)
  moreover have "groupCompare lc a d \<le> 0"
    if "groupCompare lc a b \<le> 0" "groupCompare lc b d \<le> 0" for a b d
    using that trans [of a b d] by (simp add: groupCompare_def split: if_splits)
  ultimately show ?thesis
    unfolding consistentComparator_def by blast
qed

lemma consistent_byName:
  "consistentComparator lc \<Longrightarrow> consistentComparator (\<lambda>a b. lc (name a) (name b))"
  unfolding consistentComparator_def by blast

lemma groupCompare_plain:
  "\<not> isFavoritesGroup a \<Longrightarrow> \<not> isFavoritesGroup b \<Longrightarrow> groupCompare lc a b = lc a b"
  by (simp add: groupCompare_def isFavoritesGroup_def)

lemma sorted_others:
  "sorted_wrt (\<lambda>a b. groupCompare lc a b \<le> 0) gs \<Longrightarrow>
   sorted_wrt (\<lambda>a b. lc a b \<le> 0) (filter (\<lambda>g. \<not> isFavoritesGroup g) gs)"
proof (induction gs)
  case Nil
  show ?case by simp
next
  case (Cons g gs)
  then show ?case
    by (auto simp: groupCompare_plain)
qed

lemma codeUnitCompare_total: "codeUnitCompare a b \<le> 0 \<or> codeUnitCompare b a \<le> 0"
  by (induction a b rule: codeUnitCompare.induct) auto

lemma codeUnitCompare_trans:
  "codeUnitCompare a b \<le> 0 \<Longrightarrow> codeUnitCompare b c \<le> 0 \<Longrightarrow> codeUnitCompare a c \<le> 0"
proof (induction a arbitrary: b c)
  case Nil
  then show ?case by (cases c) auto
next
  case (Cons x xs)
  from Cons.prems(1) obtain y ys where b: "b = y # ys" by (cases b) auto
  from Cons.prems(2) b obtain z zs where c: "c = z # zs" by (cases c) auto
  show ?case
    using Cons.prems Cons.IH [of ys zs] unfolding b c
    by (auto split: if_splits)
qed

lemma consistent_codeUnitCompare: "consistentComparator codeUnitCompare"
  unfolding consistentComparator_def
  using codeUnitCompare_total codeUnitCompare_trans by blast

section \<open>Grouping\<close>

lemma map_of_pushChannel:
  "map_of (pushChannel k ch g) k' =
     (if k' = k then Some ((case map_of g k of Some chs \<Rightarrow> chs | None \<Rightarrow> []) @ [ch])
      else map_of g k')"
  by (induction k ch g rule: pushChannel.induct) auto

lemma keys_pushChannel:
  "map fst (pushChannel k ch g) = (if k \<in> set (map fst g) then map fst g else map fst g @ [k])"
  by (induction k ch g rule: pushChannel.induct) auto

lemma map_of_foldl_push:
  "map_of (foldl (\<lambda>grouped ch. pushChannel (groupKey ch) ch grouped) g chs) k =
     (if filter (\<lambda>ch. groupKey ch = k) chs = [] then map_of g k
      else Some ((case map_of g k of Some old \<Rightarrow> old | None \<Rightarrow> [])
                 @ filter (\<lambda>ch. groupKey ch = k) chs))"
  by (induction chs arbitrary: g) (auto simp: map_of_pushChannel)

lemma keys_foldl_push:
  "distinct (map fst g) \<Longrightarrow>
   distinct (map fst (foldl (\<lambda>grouped ch. pushChannel (groupKey ch) ch grouped) g chs))
   \<and> set (map fst (foldl (\<lambda>grouped ch. pushChannel (groupKey ch) ch grouped) g chs))
       = set (map fst g) \<union> groupKey ` set chs"
proof (induction chs arbitrary: g)
  case Nil
  then show ?case by simp
next
  case (Cons ch chs)
  have d: "distinct (map fst (pushChannel (groupKey ch) ch g))"
    using Cons.prems by (simp add: keys_pushChannel)
  have s: "set (map fst (pushChannel (groupKey ch) ch g)) = insert (groupKey ch) (set (map fst g))"
    by (auto simp: keys_pushChannel)
  show ?case
    using Cons.IH [OF d] s by auto
qed

lemma map_of_groupAll:
  "map_of (groupAll chs) k =
     (if filter (\<lambda>ch. groupKey ch = k) chs = [] then None
      else Some (filter (\<lambda>ch. groupKey ch = k) chs))"
  by (simp add: groupAll_def map_of_foldl_push)

lemma distinct_keys_groupAll: "distinct (map fst (groupAll chs))"
  using keys_foldl_push [of "[]" chs] by (simp add: groupAll_def)

lemma set_keys_groupAll: "set (map fst (groupAll chs)) = groupKey ` set chs"
  using keys_foldl_push [of "[]" chs] by (simp add: groupAll_def)

lemma map_of_assign: "map_of (assign k v g) = (map_of g)(k \<mapsto> v)"
  by (induction k v g rule: assign.induct) auto

lemma keys_assign:
  "map fst (assign k v g) = (if k \<in> set (map fst g) then map fst g else map fst g @ [k])"
  by (induction k v g rule: assign.induct) auto

lemma distinct_keys_assign: "distinct (map fst g) \<Longrightarrow> distinct (map fst (assign k v g))"
  by (simp add: keys_assign)

lemma set_keys_assign: "set (map fst (assign k v g)) = insert k (set (map fst g))"
  by (auto simp: keys_assign)

lemma set_objectKeys: "set (objectKeys obj) = set (map fst obj)"
  by (auto simp: objectKeys_def)

lemma distinct_objectKeys: "distinct (map fst obj) \<Longrightarrow> distinct (objectKeys obj)"
  by (auto simp: objectKeys_def distinct_map)

section \<open>What render leaves alone, and what it computes\<close>

lemma renderNextBatch_frame:
  "channels (renderNextBatch s) = channels s"
  "hiddenItems (renderNextBatch s) = hiddenItems s"
  "collapsedGroups (renderNextBatch s) = collapsedGroups s"
  "visibleFavorites (renderNextBatch s) = visibleFavorites s"
  "currentChannel (renderNextBatch s) = currentChannel s"
  "batchSize (renderNextBatch s) = batchSize s"
  "filteredChannels (renderNextBatch s) = filteredChannels s"
  "groupedChannels (renderNextBatch s) = groupedChannels s"
  "sortedGroups (renderNextBatch s) = sortedGroups s"
  "showHidden (renderNextBatch s) = showHidden s"
  "container (renderNextBatch s) = container s"
  "effects (renderNextBatch s) = effects s"
  by (simp_all add: renderNextBatch_def Let_def)

lemma initialBatches_frame:
  "channels (initialBatches i s) = channels s"
  "hiddenItems (initialBatches i s) = hiddenItems s"
  "collapsedGroups (initialBatches i s) = collapsedGroups s"
  "visibleFavorites (initialBatches i s) = visibleFavorites s"
  "currentChannel (initialBatches i s) = currentChannel s"
  "batchSize (initialBatches i s) = batchSize s"
  "filteredChannels (initialBatches i s) = filteredChannels s"
  "groupedChannels (initialBatches i s) = groupedChannels s"
  "sortedGroups (initialBatches i s) = sortedGroups s"
  "showHidden (initialBatches i s) = showHidden s"
  "container (initialBatches i s) = container s"
  "effects (initialBatches i s) = effects s"
  by (induction i arbitrary: s; simp add: renderNextBatch_frame)+

lemma render_view:
  "filteredChannels (render lc s) = filteredChannels (buildView lc s)"
  "groupedChannels (render lc s) = groupedChannels (buildView lc s)"
  "sortedGroups (render lc s) = sortedGroups (buildView lc s)"
  "showHidden (render lc s) = showHidden (buildView lc s)"
  "batchSize (render lc s) = batchSize (buildView lc s)"
  by (simp_all add: render_def Let_def initialBatches_frame)

lemma buildView_frame:
  "channels (buildView lc s) = channels s"
  "hiddenItems (buildView lc s) = hiddenItems s"
  "collapsedGroups (buildView lc s) = collapsedGroups s"
  "visibleFavorites (buildView lc s) = visibleFavorites s"
  "currentChannel (buildView lc s) = currentChannel s"
  "effects (buildView lc s) = effects s"
  "batchSize (buildView lc s) = 100"
  "currentBatch (buildView lc s) = 0"
  "nextNode (buildView lc s) = nextNode s"
  by (simp_all add: buildView_def Let_def)

lemma render_frame:
  "channels (render lc s) = channels s"
  "hiddenItems (render lc s) = hiddenItems s"
  "collapsedGroups (render lc s) = collapsedGroups s"
  "visibleFavorites (render lc s) = visibleFavorites s"
  "currentChannel (render lc s) = currentChannel s"
  "effects (render lc s) = effects s"
  by (simp_all add: render_def Let_def initialBatches_frame buildView_frame)

lemma members_render: "members (render lc s) g = members (buildView lc s) g"
  by (simp add: members_def render_view)

lemma filtered_buildView:
  "filteredChannels (buildView lc s) = filter (searchKeeps s) (channels s)"
proof -
  have "searchKeeps s = (\<lambda>ch. True)" if "toLowerCase (searchInput s) = []"
    using that by (simp add: searchKeeps_def fun_eq_iff)
  moreover have "searchKeeps s = matchesSearch (toLowerCase (searchInput s))"
    if "toLowerCase (searchInput s) \<noteq> []"
    using that by (simp add: searchKeeps_def fun_eq_iff)
  ultimately show ?thesis
    by (simp add: buildView_def Let_def)
qed

lemma members_buildView_Favorites:
  "favoritedChannels s \<noteq> [] \<Longrightarrow>
   members (buildView lc s) ''Favorites'' = sortBy (\<lambda>a b. lc (name a) (name b)) (favoritedChannels s)"
  by (simp add: members_def buildView_def Let_def map_of_assign)

lemma members_buildView_other:
  "g \<noteq> ''Favorites'' \<Longrightarrow>
   members (buildView lc s) g = filter (\<lambda>ch. groupKey ch = g) (filteredChannels (buildView lc s))"
  by (simp add: members_def buildView_def Let_def map_of_assign map_of_groupAll)

lemma members_buildView_plain:
  "favoritedChannels s = [] \<Longrightarrow>
   members (buildView lc s) g = filter (\<lambda>ch. groupKey ch = g) (filteredChannels (buildView lc s))"
  by (simp add: members_def buildView_def Let_def map_of_groupAll)

lemma keys_buildView:
  "distinct (sortedGroups (buildView lc s))"
  "set (sortedGroups (buildView lc s)) =
     groupKey ` set (filteredChannels (buildView lc s))
     \<union> (if favoritedChannels s \<noteq> [] then {''Favorites''} else {})"
  "set (sortedGroups (buildView lc s)) = set (map fst (groupedChannels (buildView lc s)))"
  by (auto simp: buildView_def Let_def distinct_sortBy set_sortBy set_objectKeys
      distinct_objectKeys distinct_keys_assign distinct_keys_groupAll set_keys_assign
      set_keys_groupAll simp del: set_map)

lemma sorted_buildView:
  "consistentComparator lc \<Longrightarrow>
   sorted_wrt (\<lambda>a b. groupCompare lc a b \<le> 0) (sortedGroups (buildView lc s))"
  by (simp add: buildView_def Let_def sorted_sortBy consistent_groupCompare)

lemma favorites_first:
  assumes "sorted_wrt (\<lambda>a b. groupCompare lc a b \<le> 0) gs" "distinct gs" "''Favorites'' \<in> set gs"
  shows "\<exists>rest. gs = ''Favorites'' # rest \<and> ''Favorites'' \<notin> set rest
           \<and> sorted_wrt (\<lambda>a b. lc a b \<le> 0) rest"
proof (cases gs)
  case Nil
  with assms(3) show ?thesis by simp
next
  case (Cons g rest)
  have hd: "g = ''Favorites''"
  proof (rule ccontr)
    assume ne: "g \<noteq> ''Favorites''"
    with assms(3) Cons have "''Favorites'' \<in> set rest" by simp
    with assms(1) Cons have "groupCompare lc g ''Favorites'' \<le> 0" by simp
    with ne show False by (simp add: groupCompare_def)
  qed
  with assms(2) Cons have notin: "''Favorites'' \<notin> set rest" by simp
  have "sorted_wrt (\<lambda>a b. groupCompare lc a b \<le> 0) rest"
    using assms(1) Cons by simp
  then have "sorted_wrt (\<lambda>a b. lc a b \<le> 0) rest"
    using notin
    by (induction rest) (auto simp: groupCompare_def split: if_splits)
  with hd notin Cons show ?thesis by simp
qed

lemma favoritedChannels_searchInput [simp]:
  "favoritedChannels (s\<lparr>searchInput := t\<rparr>) = favoritedChannels s"
  by (simp add: favoritedChannels_def isFavorite_def)

lemma filter_absent_key: "k \<notin> f ` set xs \<Longrightarrow> filter (\<lambda>x. f x = k) (filter P xs) = []"
  by (auto simp: filter_empty_conv)

lemma members_buildView_none:
  assumes "favoritedChannels s = []" "''Favorites'' \<notin> groupKey ` set (channels s)"
  shows "members (buildView lc s) ''Favorites'' = []"
proof -
  have "filter (\<lambda>ch. groupKey ch = ''Favorites'') (filter (searchKeeps s) (channels s)) = []"
    using assms(2) by (rule filter_absent_key)
  then show ?thesis
    using members_buildView_plain [OF assms(1), of lc "''Favorites''"]
    by (simp only: filtered_buildView)
qed

lemma members_nonempty:
  assumes "g \<in> set (sortedGroups (buildView lc s))"
  shows "members (buildView lc s) g \<noteq> []"
proof (cases "g = ''Favorites'' \<and> favoritedChannels s \<noteq> []")
  case True
  then have "length (members (buildView lc s) g) = length (favoritedChannels s)"
    by (simp add: members_buildView_Favorites length_sortBy)
  with True show ?thesis by auto
next
  case False
  then have mem: "members (buildView lc s) g
      = filter (\<lambda>ch. groupKey ch = g) (filteredChannels (buildView lc s))"
    using members_buildView_other [of g lc s] members_buildView_plain [of s lc g] by blast
  have "g \<in> groupKey ` set (filteredChannels (buildView lc s))"
    using assms False unfolding keys_buildView(2) by (auto split: if_splits)
  then show ?thesis
    unfolding mem by (auto simp: filter_empty_conv)
qed

section \<open>Group order\<close>

text \<open>
  Claim C2. Let \<^verbatim>\<open>localeCompare\<close> be a consistent comparator. For every collection,
  flag state and search term, the group order \<^verbatim>\<open>render\<close> computes holds every group
  title once, and the titles other than Favorites stand in ascending order. When at least
  one entity is flagged favorite, Favorites is the first group, its members are the
  flagged entities, and they stand in ascending order of their names. The members of
  every other group \<open>g\<close> (of every group, when no entity is flagged) are the entities of
  that group that the search keeps, in the order of the merged entity sequence.
\<close>

theorem render_group_order:
  assumes "consistentComparator lc"
  shows "distinct (sortedGroups (render lc s))
       \<and> set (sortedGroups (render lc s))
           = groupKey ` set (filteredChannels (render lc s))
             \<union> (if favoritedChannels s \<noteq> [] then {''Favorites''} else {})
       \<and> sorted_wrt (\<lambda>a b. lc a b \<le> 0)
            (filter (\<lambda>g. \<not> isFavoritesGroup g) (sortedGroups (render lc s)))
       \<and> (favoritedChannels s \<noteq> [] \<longrightarrow>
            (\<exists>rest. sortedGroups (render lc s) = ''Favorites'' # rest \<and> ''Favorites'' \<notin> set rest)
            \<and> sorted_wrt (\<lambda>a b. lc (name a) (name b) \<le> 0) (members (render lc s) ''Favorites'')
            \<and> mset (members (render lc s) ''Favorites'') = mset (favoritedChannels s))
       \<and> (\<not> isFavoritesGroup g \<or> favoritedChannels s = [] \<longrightarrow>
            members (render lc s) g = filter (\<lambda>ch. groupKey ch = g) (filteredChannels (render lc s)))
       \<and> filteredChannels (render lc s) = filter (searchKeeps s) (channels s)"
proof -
  let ?v = "buildView lc s"
  have keys: "distinct (sortedGroups ?v)"
    "set (sortedGroups ?v) = groupKey ` set (filteredChannels ?v)
             \<union> (if favoritedChannels s \<noteq> [] then {''Favorites''} else {})"
    by (rule keys_buildView)+
  have others: "sorted_wrt (\<lambda>a b. lc a b \<le> 0) (filter (\<lambda>g. \<not> isFavoritesGroup g) (sortedGroups ?v))"
    using sorted_buildView [OF assms] by (rule sorted_others)
  have favs: "(\<exists>rest. sortedGroups ?v = ''Favorites'' # rest \<and> ''Favorites'' \<notin> set rest)
            \<and> sorted_wrt (\<lambda>a b. lc (name a) (name b) \<le> 0) (members ?v ''Favorites'')
            \<and> mset (members ?v ''Favorites'') = mset (favoritedChannels s)"
    if some: "favoritedChannels s \<noteq> []"
  proof -
    have "''Favorites'' \<in> set (sortedGroups ?v)"
      using some by (simp add: keys_buildView(2))
    with favorites_first [OF sorted_buildView [OF assms] keys_buildView(1)]
    obtain rest where "sortedGroups ?v = ''Favorites'' # rest" "''Favorites'' \<notin> set rest"
      by blast
    then have first: "\<exists>rest. sortedGroups ?v = ''Favorites'' # rest \<and> ''Favorites'' \<notin> set rest"
      by blast
    have fav: "members ?v ''Favorites'' = sortBy (\<lambda>a b. lc (name a) (name b)) (favoritedChannels s)"
      using some by (rule members_buildView_Favorites)
    have byName: "sorted_wrt (\<lambda>a b. lc (name a) (name b) \<le> 0) (members ?v ''Favorites'')"
      unfolding fav using consistent_byName [OF assms] by (rule sorted_sortBy)
    have perm: "mset (members ?v ''Favorites'') = mset (favoritedChannels s)"
      unfolding fav by (rule mset_sortBy)
    from first byName perm show ?thesis
      by (intro conjI)
  qed
  have other: "members ?v g = filter (\<lambda>ch. groupKey ch = g) (filteredChannels ?v)"
    if "\<not> isFavoritesGroup g \<or> favoritedChannels s = []"
  proof (cases "favoritedChannels s = []")
    case True
    then show ?thesis by (rule members_buildView_plain)
  next
    case False
    with that have "g \<noteq> ''Favorites''"
      by (simp add: isFavoritesGroup_def)
    then show ?thesis by (rule members_buildView_other)
  qed
  show ?thesis
    unfolding render_view members_render
    using keys others favs other filtered_buildView [of lc s]
    by (intro conjI impI) blast+
qed

text \<open>
  The three entities of the specification with \<open>b\<close> flagged favorite: the hypotheses
  hold, Favorites comes first and News keeps the order of the collection.
\<close>

theorem render_group_order_witness:
  "consistentComparator codeUnitCompare
   \<and> favoritedChannels (threeEntities\<lparr>visibleFavorites := {''1:b''}\<rparr>) \<noteq> []
   \<and> (\<exists>rest. sortedGroups (render codeUnitCompare (threeEntities\<lparr>visibleFavorites := {''1:b''}\<rparr>))
               = ''Favorites'' # rest
        \<and> ''Favorites'' \<notin> set rest)
   \<and> members (render codeUnitCompare (threeEntities\<lparr>visibleFavorites := {''1:b''}\<rparr>)) ''News''
       = filter (\<lambda>ch. groupKey ch = ''News'')
           (filteredChannels (render codeUnitCompare (threeEntities\<lparr>visibleFavorites := {''1:b''}\<rparr>)))
   \<and> sortedGroups (render codeUnitCompare (threeEntities\<lparr>visibleFavorites := {''1:b''}\<rparr>))
       = [''Favorites'', ''News'', ''Sports'']"
proof -
  have fav: "favoritedChannels (threeEntities\<lparr>visibleFavorites := {''1:b''}\<rparr>) \<noteq> []"
    by code_simp
  have news: "\<not> isFavoritesGroup ''News''"
    by code_simp
  have run: "sortedGroups (render codeUnitCompare (threeEntities\<lparr>visibleFavorites := {''1:b''}\<rparr>))
       = [''Favorites'', ''News'', ''Sports'']"
    by code_simp
  show ?thesis
    using render_group_order [OF consistent_codeUnitCompare, of "threeEntities\<lparr>visibleFavorites := {''1:b''}\<rparr>" "''News''"]
      consistent_codeUnitCompare fav news run
    by blast
qed

section \<open>Favorites and the search term\<close>

text \<open>
  Claim C5. Whenever an entity is flagged favorite (or no group of the collection is
  itself titled Favorites, so that the title stands for the synthetic group alone), the
  members of the Favorites group after \<^verbatim>\<open>render\<close> are, for every search term \<open>t\<close>,
  exactly the favorite-flagged entities of the whole collection, and they are the same
  list as under any other search term.
\<close>

theorem favorites_ignore_search:
  assumes "favoritedChannels s \<noteq> [] \<or> ''Favorites'' \<notin> groupKey ` set (channels s)"
  shows "mset (members (render lc (s\<lparr>searchInput := t\<rparr>)) ''Favorites'') = mset (favoritedChannels s)
       \<and> set (members (render lc (s\<lparr>searchInput := t\<rparr>)) ''Favorites'')
           = {ch \<in> set (channels s). isFavorite s (sourceId ch) (chId ch)}
       \<and> members (render lc (s\<lparr>searchInput := t\<rparr>)) ''Favorites'' = members (render lc s) ''Favorites''"
proof -
  have eq: "members (buildView lc (s\<lparr>searchInput := t\<rparr>)) ''Favorites'' = members (buildView lc s) ''Favorites''"
    and perm: "mset (members (buildView lc s) ''Favorites'') = mset (favoritedChannels s)"
  proof -
    show "members (buildView lc (s\<lparr>searchInput := t\<rparr>)) ''Favorites'' = members (buildView lc s) ''Favorites''"
    proof (cases "favoritedChannels s = []")
      case True
      with assms have no: "''Favorites'' \<notin> groupKey ` set (channels s)" by blast
      have "members (buildView lc (s\<lparr>searchInput := t\<rparr>)) ''Favorites'' = []"
        by (rule members_buildView_none) (use True no in simp_all)
      moreover have "members (buildView lc s) ''Favorites'' = []"
        using True no by (rule members_buildView_none)
      ultimately show ?thesis by simp
    next
      case False
      then show ?thesis
        by (simp add: members_buildView_Favorites)
    qed
    show "mset (members (buildView lc s) ''Favorites'') = mset (favoritedChannels s)"
    proof (cases "favoritedChannels s = []")
      case True
      with assms have no: "''Favorites'' \<notin> groupKey ` set (channels s)" by blast
      show ?thesis
        using True members_buildView_none [OF True no, of lc] by simp
    next
      case False
      then show ?thesis
        by (simp add: members_buildView_Favorites mset_sortBy)
    qed
  qed
  have "set (members (buildView lc s) ''Favorites'') = set (favoritedChannels s)"
    using perm by (rule mset_eq_setD)
  then have mem: "set (members (buildView lc s) ''Favorites'')
      = {ch \<in> set (channels s). isFavorite s (sourceId ch) (chId ch)}"
    by (simp add: favoritedChannels_def)
  show ?thesis
    unfolding members_render eq
    by (intro conjI) (fact perm mem refl)+
qed

text \<open>
  The search for \<open>esp\<close> over the three entities, \<open>b\<close> flagged: Favorites holds \<open>b\<close>,
  which the search term does not match.
\<close>

theorem favorites_ignore_search_witness:
  "favoritedChannels (threeEntities\<lparr>visibleFavorites := {''1:b''}\<rparr>) \<noteq> []
   \<and> map chId (members (render codeUnitCompare (threeEntities\<lparr>visibleFavorites := {''1:b''}, searchInput := ''esp''\<rparr>)) ''Favorites'') = [''b'']
   \<and> members (render codeUnitCompare (threeEntities\<lparr>visibleFavorites := {''1:b''}\<rparr>\<lparr>searchInput := ''esp''\<rparr>)) ''Favorites''
       = members (render codeUnitCompare (threeEntities\<lparr>visibleFavorites := {''1:b''}\<rparr>)) ''Favorites''"
proof -
  have fav: "favoritedChannels (threeEntities\<lparr>visibleFavorites := {''1:b''}\<rparr>) \<noteq> []"
    by code_simp
  have run: "map chId (members (render codeUnitCompare (threeEntities\<lparr>visibleFavorites := {''1:b''}, searchInput := ''esp''\<rparr>)) ''Favorites'') = [''b'']"
    by code_simp
  show ?thesis
    using favorites_ignore_search [OF disjI1 [OF fav], of codeUnitCompare "''esp''"] fav run
    by blast
qed

section \<open>The favorite toggle\<close>

lemma updateFavoritesGroup_frame:
  "channels (updateFavoritesGroup lc ch b s) = channels s"
  "visibleFavorites (updateFavoritesGroup lc ch b s) = visibleFavorites s"
  "hiddenItems (updateFavoritesGroup lc ch b s) = hiddenItems s"
  "effects (updateFavoritesGroup lc ch b s) = effects s"
  "currentChannel (updateFavoritesGroup lc ch b s) = currentChannel s"
  by (simp_all add: updateFavoritesGroup_def Let_def render_frame split: option.splits)

lemma findChannel_cong: "channels s' = channels s \<Longrightarrow> findChannel s' sid cid = findChannel s sid cid"
  by (simp add: findChannel_def)

lemma querySelectorAll_throws:
  "(querySelectorAll css sid cid s = None) = (\<not> selectorSafe cid \<and> css sid cid = None)"
  by (simp add: querySelectorAll_def split: option.splits)

lemma nodeList_frame:
  assumes "querySelectorAll css sid cid s0 = Some btns"
  shows "channels (btns f s) = channels s"
    "visibleFavorites (btns f s) = visibleFavorites s"
    "groupedChannels (btns f s) = groupedChannels s"
    "sortedGroups (btns f s) = sortedGroups s"
    "currentChannel (btns f s) = currentChannel s"
    "effects (btns f s) = effects s"
  using assms
  by (auto simp: querySelectorAll_def buttonList_def otherList_def split: if_splits option.splits)

lemma toggleFavorite_cache:
  "visibleFavorites (afterCall (toggleFavorite lc css remoteOk sid cid s)) =
     (if remoteOk \<and> (selectorSafe cid \<or> css sid cid \<noteq> None)
      then (if favoriteKey sid cid \<in> visibleFavorites s
            then visibleFavorites s - {favoriteKey sid cid}
            else insert (favoriteKey sid cid) (visibleFavorites s))
      else visibleFavorites s)"
proof (cases "querySelectorAll css sid cid s")
  case None
  then have "\<not> (selectorSafe cid \<or> css sid cid \<noteq> None)"
    by (simp add: querySelectorAll_throws)
  with None show ?thesis
    by (simp add: toggleFavorite_def afterCall_def)
next
  case (Some btns)
  then have "selectorSafe cid \<or> css sid cid \<noteq> None"
    using querySelectorAll_throws [of css sid cid s] by auto
  with Some show ?thesis
    by (auto simp: toggleFavorite_def afterCall_def Let_def nodeList_frame [OF Some]
        updateFavoritesGroup_frame split: option.splits)
qed

text \<open>
  Claim C8. For every state, source id and entity id (in the collection or not), and
  whatever the platform makes of the selector, two toggles in a row whose remote calls
  both succeed leave the cached favorite-membership set as it was before the first. (A
  toggle that throws at its selector issues no remote call and leaves the set alone; the
  second then throws as well, so that the equation holds there too.)
\<close>

theorem toggleFavorite_twice:
  "visibleFavorites
     (afterCall (toggleFavorite lc css True sid cid
        (afterCall (toggleFavorite lc css True sid cid s))))
     = visibleFavorites s"
  by (auto simp: toggleFavorite_cache)

text \<open>
  Claim C3. A toggle whose remote call fails restores the cached set (lemma
  \<open>toggleFavorite_cache\<close>), but not the rest. On the three rendered entities without a
  favorite, the failed toggle of \<open>b\<close> rebuilds the list while \<open>b\<close> counts as favorite, and
  the rollback patches the buttons taken before the rebuild: the button of \<open>b\<close> on the
  page stays active. With \<open>a\<close> and \<open>b\<close> favorite, the failed toggle of \<open>b\<close> removes it
  from the Favorites list and appends it again, behind \<open>a\<close>; and the failed toggle of \<open>a\<close>
  leaves the button of \<open>a\<close> in its own group with the title of a non-favorite. None of
  the three calls throws.
\<close>

theorem rollback_leaves_traces:
  "\<not> threw (toggleFavorite codeUnitCompare rejecting False 1 ''b'' renderedThree)
   \<and> visibleFavorites (afterCall (toggleFavorite codeUnitCompare rejecting False 1 ''b'' renderedThree))
       = visibleFavorites renderedThree
   \<and> map btnActive (affordances renderedThree 1 ''b'') = [False]
   \<and> map btnActive
         (affordances (afterCall (toggleFavorite codeUnitCompare rejecting False 1 ''b'' renderedThree))
            1 ''b'')
       = [True]
   \<and> \<not> threw (toggleFavorite codeUnitCompare rejecting False 1 ''b'' bothFavorites)
   \<and> map chId (members bothFavorites ''Favorites'') = [''b'', ''a'']
   \<and> map chId
         (members (afterCall (toggleFavorite codeUnitCompare rejecting False 1 ''b'' bothFavorites))
            ''Favorites'')
       = [''a'', ''b'']
   \<and> \<not> threw (toggleFavorite codeUnitCompare rejecting False 1 ''a'' bothFavorites)
   \<and> map btnTitle (affordances bothFavorites 1 ''a'')
       = [''Remove from Favorites'', ''Remove from Favorites'']
   \<and> map btnTitle
         (affordances (afterCall (toggleFavorite codeUnitCompare rejecting False 1 ''a'' bothFavorites))
            1 ''a'')
       = [''Remove from Favorites'', ''Add to Favorites'']"
  by code_simp

section \<open>Ids that are not in the collection\<close>

lemma find_absent: "k \<notin> f ` set xs \<Longrightarrow> find (\<lambda>x. f x = k) xs = None"
  by (induction xs) auto

lemma find_absent2: "k \<notin> f ` set xs \<Longrightarrow> find (\<lambda>x. g x = j \<and> f x = k) xs = None"
  by (induction xs) auto

lemma findChannel_absent: "cid \<notin> chId ` set (channels s) \<Longrightarrow> findChannel s sid cid = None"
  unfolding findChannel_def by (rule find_absent2)

lemma rows_forEachBtn:
  "map (\<lambda>el. (dataGroup el, map (\<lambda>it. (dataSourceId it, dataChannelId it)) (groupItems el)))
     (forEachBtn btns f els)
   = map (\<lambda>el. (dataGroup el, map (\<lambda>it. (dataSourceId it, dataChannelId it)) (groupItems el))) els"
  by (simp add: forEachBtn_def comp_def)

lemma forEachBtn_none: "forEachBtn [] f els = els"
  by (simp add: forEachBtn_def)

lemma favoriteBtns_none:
  "cid \<notin> dataChannelId ` set (concat (map groupItems (listContainer s))) \<Longrightarrow>
   favoriteBtns s sid cid = []"
  by (auto simp: favoriteBtns_def filter_empty_conv)

lemma toggleFavorite_absent:
  assumes "cid \<notin> chId ` set (channels s)"
    and "querySelectorAll css sid cid s = Some btns"
  shows "toggleFavorite lc css remoteOk sid cid s =
     Normal (if favoriteKey sid cid \<in> visibleFavorites s
       then (if remoteOk
             then (btns unmarkFavorite
                     (s\<lparr>visibleFavorites := visibleFavorites s - {favoriteKey sid cid}\<rparr>))
                  \<lparr>effects := effects s @ [FavoritesRemove sid cid]\<rparr>
             else btns revertToFavorite
                    ((btns unmarkFavorite
                        (s\<lparr>visibleFavorites := visibleFavorites s - {favoriteKey sid cid}\<rparr>))
                     \<lparr>effects := effects s @ [FavoritesRemove sid cid],
                       visibleFavorites := visibleFavorites s\<rparr>))
       else (if remoteOk
             then (btns markFavorite
                     (s\<lparr>visibleFavorites := insert (favoriteKey sid cid) (visibleFavorites s)\<rparr>))
                  \<lparr>effects := effects s @ [FavoritesAdd sid cid]\<rparr>
             else btns revertToPlain
                    ((btns markFavorite
                        (s\<lparr>visibleFavorites := insert (favoriteKey sid cid) (visibleFavorites s)\<rparr>))
                     \<lparr>effects := effects s @ [FavoritesAdd sid cid],
                       visibleFavorites := visibleFavorites s\<rparr>)))"
proof -
  have none: "findChannel s' sid cid = None" if "channels s' = channels s" for s'
    using that assms(1) findChannel_absent [of cid s' sid] by simp
  show ?thesis
    by (auto simp: toggleFavorite_def Let_def assms(2) none nodeList_frame [OF assms(2)]
        insert_absorb)
qed

text \<open>
  Claim C9, as the code has it. For an id absent from the collection, selecting it
  returns at once with the state unchanged (no call leaves the component, nothing is
  thrown). Toggling favorite on it is not guarded in this way. The selector for the
  buttons of the id is built and evaluated before the \<^verbatim>\<open>try\<close> statement and before any
  check: when the id breaks the selector (it does not stand in it as it is, and the
  platform refuses the text), the call throws, with the state unchanged and no remote
  call. For every other id the call throws nothing and leaves the collection, the grouped
  view and the selection alone (and the rendered rows, for an id that stands in the
  selector as it is; the whole list element, when no row carries that id), but it is not
  a no-op: the existence check guards the Favorites-group update only, so the remote add
  or remove call is issued, and the key is flipped in the cached set when the call
  succeeds (the flip is taken back when it fails).
\<close>

theorem absent_id_guard:
  assumes "cid \<notin> chId ` set (channels s)"
  shows "selectChannel streamUrl cid s = Normal s
       \<and> (\<not> selectorSafe cid \<and> css sid cid = None \<longrightarrow>
            toggleFavorite lc css remoteOk sid cid s = Threw s)
       \<and> (selectorSafe cid \<or> css sid cid \<noteq> None \<longrightarrow>
            (\<exists>s'. toggleFavorite lc css remoteOk sid cid s = Normal s'
               \<and> channels s' = channels s
               \<and> groupedChannels s' = groupedChannels s
               \<and> sortedGroups s' = sortedGroups s
               \<and> currentChannel s' = currentChannel s
               \<and> effects s'
                   = effects s @ [if favoriteKey sid cid \<in> visibleFavorites s
                                  then FavoritesRemove sid cid else FavoritesAdd sid cid]
               \<and> visibleFavorites s'
                   = (if remoteOk
                      then (if favoriteKey sid cid \<in> visibleFavorites s
                            then visibleFavorites s - {favoriteKey sid cid}
                            else insert (favoriteKey sid cid) (visibleFavorites s))
                      else visibleFavorites s)
               \<and> (selectorSafe cid \<longrightarrow> rowsOf s' = rowsOf s)
               \<and> (selectorSafe cid
                    \<and> cid \<notin> dataChannelId ` set (concat (map groupItems (listContainer s)))
                    \<longrightarrow> listContainer s' = listContainer s)))"
proof -
  have sel: "selectChannel streamUrl cid s = Normal s"
    using find_absent [OF assms] by (simp add: selectChannel_def)
  have thrown: "toggleFavorite lc css remoteOk sid cid s = Threw s"
    if "\<not> selectorSafe cid \<and> css sid cid = None"
    using that by (simp add: toggleFavorite_def querySelectorAll_def)
  have returned: "\<exists>s'. toggleFavorite lc css remoteOk sid cid s = Normal s'
               \<and> channels s' = channels s
               \<and> groupedChannels s' = groupedChannels s
               \<and> sortedGroups s' = sortedGroups s
               \<and> currentChannel s' = currentChannel s
               \<and> effects s'
                   = effects s @ [if favoriteKey sid cid \<in> visibleFavorites s
                                  then FavoritesRemove sid cid else FavoritesAdd sid cid]
               \<and> visibleFavorites s'
                   = (if remoteOk
                      then (if favoriteKey sid cid \<in> visibleFavorites s
                            then visibleFavorites s - {favoriteKey sid cid}
                            else insert (favoriteKey sid cid) (visibleFavorites s))
                      else visibleFavorites s)
               \<and> (selectorSafe cid \<longrightarrow> rowsOf s' = rowsOf s)
               \<and> (selectorSafe cid
                    \<and> cid \<notin> dataChannelId ` set (concat (map groupItems (listContainer s)))
                    \<longrightarrow> listContainer s' = listContainer s)"
    if ok: "selectorSafe cid \<or> css sid cid \<noteq> None"
  proof -
    from ok obtain btns where btns: "querySelectorAll css sid cid s = Some btns"
      using querySelectorAll_throws [of css sid cid s] by auto
    have safe: "btns = buttonList (favoriteBtns s sid cid)" if "selectorSafe cid"
      using btns that by (simp add: querySelectorAll_def)
    have rows: "rowsOf (afterCall (toggleFavorite lc css remoteOk sid cid s)) = rowsOf s"
      if "selectorSafe cid"
      unfolding toggleFavorite_absent [OF assms btns] safe [OF that]
      by (simp add: afterCall_def rowsOf_def renderedGroups_def buttonList_def rows_forEachBtn)
    have page: "listContainer (afterCall (toggleFavorite lc css remoteOk sid cid s)) = listContainer s"
      if "selectorSafe cid"
        "cid \<notin> dataChannelId ` set (concat (map groupItems (listContainer s)))"
      unfolding toggleFavorite_absent [OF assms btns] safe [OF that(1)]
        favoriteBtns_none [OF that(2)]
      by (simp add: afterCall_def buttonList_def forEachBtn_none)
    have frame: "channels (afterCall (toggleFavorite lc css remoteOk sid cid s)) = channels s
               \<and> groupedChannels (afterCall (toggleFavorite lc css remoteOk sid cid s)) = groupedChannels s
               \<and> sortedGroups (afterCall (toggleFavorite lc css remoteOk sid cid s)) = sortedGroups s
               \<and> currentChannel (afterCall (toggleFavorite lc css remoteOk sid cid s)) = currentChannel s
               \<and> effects (afterCall (toggleFavorite lc css remoteOk sid cid s))
                   = effects s @ [if favoriteKey sid cid \<in> visibleFavorites s
                                  then FavoritesRemove sid cid else FavoritesAdd sid cid]"
      unfolding toggleFavorite_absent [OF assms btns]
      by (simp add: afterCall_def nodeList_frame [OF btns])
    have normal: "toggleFavorite lc css remoteOk sid cid s
                    = Normal (afterCall (toggleFavorite lc css remoteOk sid cid s))"
      unfolding toggleFavorite_absent [OF assms btns] by (simp add: afterCall_def)
    show ?thesis
      using normal frame rows page ok toggleFavorite_cache [of lc css remoteOk sid cid s]
      by (intro exI [of _ "afterCall (toggleFavorite lc css remoteOk sid cid s)"]) simp
  qed
  from sel thrown returned show ?thesis
    by (intro conjI impI)
qed

text \<open>
  On the three rendered entities: the id \<open>ghost\<close>, which stands in the selector as it
  is, and the id with the double quote on a platform that refuses its selector.
\<close>

theorem absent_id_guard_witness:
  "''ghost'' \<notin> chId ` set (channels renderedThree)
   \<and> selectorSafe ''ghost''
   \<and> ''ghost'' \<notin> dataChannelId ` set (concat (map groupItems (listContainer renderedThree)))
   \<and> selectChannel None ''ghost'' renderedThree = Normal renderedThree
   \<and> (\<exists>s'. toggleFavorite codeUnitCompare rejecting False 1 ''ghost'' renderedThree = Normal s'
          \<and> effects s' = effects renderedThree @ [FavoritesAdd 1 ''ghost'']
          \<and> visibleFavorites s' = visibleFavorites renderedThree
          \<and> listContainer s' = listContainer renderedThree)
   \<and> quotedId \<notin> chId ` set (channels renderedThree)
   \<and> \<not> selectorSafe quotedId
   \<and> toggleFavorite codeUnitCompare rejecting False 1 quotedId renderedThree = Threw renderedThree"
proof -
  have absent: "''ghost'' \<notin> chId ` set (channels renderedThree)"
    by code_simp
  have safe: "selectorSafe ''ghost''"
    by code_simp
  have norow: "''ghost'' \<notin> dataChannelId ` set (concat (map groupItems (listContainer renderedThree)))"
    by code_simp
  have fresh: "favoriteKey 1 ''ghost'' \<notin> visibleFavorites renderedThree"
    by code_simp
  have absent': "quotedId \<notin> chId ` set (channels renderedThree)"
    by code_simp
  have unsafe: "\<not> selectorSafe quotedId"
    by code_simp
  have refused: "rejecting 1 quotedId = None"
    by (simp add: rejecting_def)
  have ghost: "\<exists>s'. toggleFavorite codeUnitCompare rejecting False 1 ''ghost'' renderedThree = Normal s'
          \<and> effects s' = effects renderedThree @ [FavoritesAdd 1 ''ghost'']
          \<and> visibleFavorites s' = visibleFavorites renderedThree
          \<and> listContainer s' = listContainer renderedThree"
    using absent_id_guard [OF absent, of None rejecting 1 codeUnitCompare False] safe norow fresh
    by auto
  have quoted: "toggleFavorite codeUnitCompare rejecting False 1 quotedId renderedThree = Threw renderedThree"
    using absent_id_guard [OF absent', of None rejecting 1 codeUnitCompare False] unsafe refused
    by blast
  have sel: "selectChannel None ''ghost'' renderedThree = Normal renderedThree"
    using absent_id_guard [OF absent, of None rejecting 1 codeUnitCompare False] by blast
  from absent safe norow sel ghost absent' unsafe quoted show ?thesis
    by (intro conjI)
qed

text \<open>
  Claim C9 as stated fails for the toggle. On the same state the toggle of \<open>ghost\<close> adds
  a key to the cached set and issues the remote add call; and the toggle of the id with
  the double quote, whose selector the platform refuses, throws.
\<close>

theorem absent_id_toggle_counterexample:
  "''ghost'' \<notin> chId ` set (channels renderedThree)
   \<and> visibleFavorites renderedThree = {}
   \<and> \<not> threw (toggleFavorite codeUnitCompare rejecting True 1 ''ghost'' renderedThree)
   \<and> visibleFavorites (afterCall (toggleFavorite codeUnitCompare rejecting True 1 ''ghost'' renderedThree))
       = {''1:ghost''}
   \<and> effects renderedThree = []
   \<and> effects (afterCall (toggleFavorite codeUnitCompare rejecting True 1 ''ghost'' renderedThree))
       = [FavoritesAdd 1 ''ghost'']
   \<and> quotedId \<notin> chId ` set (channels renderedThree)
   \<and> threw (toggleFavorite codeUnitCompare rejecting True 1 quotedId renderedThree)"
  by code_simp

section \<open>Batches\<close>

lemma sameView_refl: "sameView s s"
  by (simp add: sameView_def)

lemma sameView_trans: "sameView s'' s' \<Longrightarrow> sameView s' s \<Longrightarrow> sameView s'' s"
  by (simp add: sameView_def)

lemma sameView_members: "sameView s' s \<Longrightarrow> members s' g = members s g"
  by (simp add: sameView_def members_def)

lemma sameView_isHidden: "sameView s' s \<Longrightarrow> isHidden s' ty sid i = isHidden s ty sid i"
  by (simp add: sameView_def isHidden_def)

lemma sameView_showHidden: "sameView s' s \<Longrightarrow> showHidden s' = showHidden s"
  by (simp add: sameView_def)

lemma sameView_groupHidden:
  assumes "sameView s' s"
  shows "groupHidden s' g = groupHidden s g"
  by (simp add: groupHidden_def sameView_members [OF assms] sameView_isHidden [OF assms]
      split: list.splits)

lemma sameView_channelHidden:
  assumes "sameView s' s"
  shows "channelHidden s' fav ch = channelHidden s fav ch"
  by (simp add: channelHidden_def sameView_isHidden [OF assms])

lemma sameView_itemOf:
  assumes "sameView s' s"
  shows "itemOf s' fav n ch = itemOf s fav n ch"
proof -
  have "currentChannel s' = currentChannel s" "visibleFavorites s' = visibleFavorites s"
    using assms by (simp_all add: sameView_def)
  then show ?thesis
    by (simp add: itemOf_def sameView_channelHidden [OF assms] isActive_def isFavorite_def)
qed

lemma sameView_renderItems:
  assumes "sameView s' s"
  shows "renderItems s' fav n chs = renderItems s fav n chs"
  by (induction chs arbitrary: n)
     (simp_all add: sameView_channelHidden [OF assms] sameView_itemOf [OF assms]
        sameView_showHidden [OF assms])

lemma sameView_renderGroups:
  assumes "sameView s' s"
  shows "renderGroups s' n gs = renderGroups s n gs"
proof (induction gs arbitrary: n)
  case Nil
  show ?case by simp
next
  case (Cons g gs)
  have co: "collapsedGroups s' = collapsedGroups s"
    using assms by (simp add: sameView_def)
  show ?case
    by (simp add: Cons.IH sameView_members [OF assms] sameView_groupHidden [OF assms]
        sameView_renderItems [OF assms] sameView_showHidden [OF assms] co Let_def)
qed

lemma sameView_itemShown:
  assumes "sameView s' s"
  shows "itemShown s' g ch = itemShown s g ch"
  by (simp add: itemShown_def sameView_channelHidden [OF assms] sameView_showHidden [OF assms])

lemma sameView_groupEmitted:
  assumes "sameView s' s"
  shows "groupEmitted s' g = groupEmitted s g"
  by (simp add: groupEmitted_def sameView_members [OF assms] sameView_groupHidden [OF assms]
      sameView_showHidden [OF assms])

lemma itemTotal_append: "itemTotal (xs @ ys) = itemTotal xs + itemTotal ys"
  by (simp add: itemTotal_def)

lemma itemTotal_Cons: "itemTotal (el # els) = length (groupItems el) + itemTotal els"
  by (simp add: itemTotal_def)

lemma itemTotal_Nil: "itemTotal [] = 0"
  by (simp add: itemTotal_def)

lemma renderGroups_append:
  "renderGroups s n (xs @ ys)
     = renderGroups s n xs @ renderGroups s (n + itemTotal (renderGroups s n xs)) ys"
proof (induction xs arbitrary: n)
  case Nil
  show ?case by (simp add: itemTotal_Nil)
next
  case (Cons g gs)
  show ?case
    by (simp add: Cons.IH itemTotal_Cons Let_def add.assoc)
qed

lemma take_next_batch: "take (k * b) xs @ slice (k * b) (k * b + b) xs = take (Suc k * b) xs"
proof -
  have "Suc k * b = k * b + b" by simp
  then show ?thesis
    by (simp only: slice_def take_add add_diff_cancel_left')
qed

lemma slice_empty: "0 < b \<Longrightarrow> (slice a (a + b) xs = []) = (length xs \<le> a)"
  by (simp add: slice_def)

lemma renderNextBatch_sameView: "sameView (renderNextBatch s) s"
  by (simp add: sameView_def renderNextBatch_frame)

lemma renderNextBatch_done:
  assumes "slice (currentBatch s * batchSize s) (currentBatch s * batchSize s + batchSize s)
             (sortedGroups s) = []"
  shows "listContainer (renderNextBatch s) = listContainer s"
    and "nextNode (renderNextBatch s) = nextNode s"
    and "currentBatch (renderNextBatch s) = currentBatch s"
    and "loaderDisplayNone (renderNextBatch s)"
  using assms by (simp_all add: renderNextBatch_def Let_def)

lemma renderNextBatch_more:
  assumes "slice (currentBatch s * batchSize s) (currentBatch s * batchSize s + batchSize s)
             (sortedGroups s) \<noteq> []"
  shows "listContainer (renderNextBatch s)
           = listContainer s
             @ renderGroups s (nextNode s)
                 (slice (currentBatch s * batchSize s)
                    (currentBatch s * batchSize s + batchSize s) (sortedGroups s))"
    and "nextNode (renderNextBatch s)
           = nextNode s
             + itemTotal (renderGroups s (nextNode s)
                 (slice (currentBatch s * batchSize s)
                    (currentBatch s * batchSize s + batchSize s) (sortedGroups s)))"
    and "currentBatch (renderNextBatch s) = Suc (currentBatch s)"
    and "loaderDisplayNone (renderNextBatch s)
           = (loaderDisplayNone s
              \<or> length (sortedGroups s) \<le> currentBatch s * batchSize s + batchSize s)"
  using assms by (simp_all add: renderNextBatch_def Let_def)

lemma renderNextBatch_batched:
  assumes "batched n0 s"
  shows "batched n0 (renderNextBatch s)"
proof -
  define k b G where "k = currentBatch s" and "b = batchSize s" and "G = sortedGroups s"
  have b: "0 < b" and lc: "listContainer s = renderGroups s n0 (take (k * b) G)"
    and nn: "nextNode s = n0 + itemTotal (listContainer s)"
    and lazy: "loaderDisplayNone s \<longrightarrow> length G \<le> k * b"
    using assms by (simp_all add: batched_def k_def b_def G_def)
  have view: "renderGroups (renderNextBatch s) n0 gs = renderGroups s n0 gs" for gs
    by (rule sameView_renderGroups [OF renderNextBatch_sameView])
  show ?thesis
  proof (cases "slice (k * b) (k * b + b) G = []")
    case True
    then have full: "length G \<le> k * b"
      using b by (simp add: slice_empty)
    note same = renderNextBatch_done [of s, folded k_def b_def G_def, OF True]
    have "0 < batchSize (renderNextBatch s)"
      using b by (simp add: renderNextBatch_frame b_def)
    moreover have "listContainer (renderNextBatch s)
        = renderGroups (renderNextBatch s) n0
            (take (currentBatch (renderNextBatch s) * batchSize (renderNextBatch s))
               (sortedGroups (renderNextBatch s)))"
      unfolding view same renderNextBatch_frame using lc by (simp add: k_def b_def G_def)
    moreover have "nextNode (renderNextBatch s) = n0 + itemTotal (listContainer (renderNextBatch s))"
      unfolding same by (rule nn)
    moreover have "length (sortedGroups (renderNextBatch s))
        \<le> currentBatch (renderNextBatch s) * batchSize (renderNextBatch s)"
      unfolding same renderNextBatch_frame using full by (simp add: k_def b_def G_def)
    ultimately show ?thesis
      unfolding batched_def by blast
  next
    case False
    note new = renderNextBatch_more [of s, folded k_def b_def G_def, OF False]
    let ?els = "renderGroups s (nextNode s) (slice (k * b) (k * b + b) G)"
    have "listContainer s @ ?els = renderGroups s n0 (take (k * b) G @ slice (k * b) (k * b + b) G)"
      unfolding renderGroups_append using lc nn by simp
    then have grow: "listContainer s @ ?els = renderGroups s n0 (take (Suc k * b) G)"
      by (simp only: take_next_batch)
    have "0 < batchSize (renderNextBatch s)"
      using b by (simp add: renderNextBatch_frame b_def)
    moreover have "listContainer (renderNextBatch s)
        = renderGroups (renderNextBatch s) n0
            (take (currentBatch (renderNextBatch s) * batchSize (renderNextBatch s))
               (sortedGroups (renderNextBatch s)))"
      unfolding view new renderNextBatch_frame using grow by (simp only: k_def b_def G_def)
    moreover have "nextNode (renderNextBatch s) = n0 + itemTotal (listContainer (renderNextBatch s))"
      unfolding new using nn by (simp add: itemTotal_append)
    moreover have "loaderDisplayNone (renderNextBatch s) \<longrightarrow>
        length (sortedGroups (renderNextBatch s))
        \<le> currentBatch (renderNextBatch s) * batchSize (renderNextBatch s)"
      unfolding new renderNextBatch_frame using lazy by (auto simp: k_def b_def G_def)
    ultimately show ?thesis
      unfolding batched_def by blast
  qed
qed

lemma initialBatches_batched: "batched n0 s \<Longrightarrow> batched n0 (initialBatches i s)"
  by (induction i arbitrary: s) (simp_all add: renderNextBatch_batched)

lemma initialBatches_sameView: "sameView (initialBatches i s) s"
proof (induction i arbitrary: s)
  case 0
  show ?case by (simp add: sameView_refl)
next
  case (Suc i)
  show ?case
    using sameView_trans [OF Suc.IH [of "renderNextBatch s"] renderNextBatch_sameView]
    by (simp add: sameView_refl)
qed

lemma fireUntilRetired_batched: "batched n0 s \<Longrightarrow> batched n0 (fireUntilRetired s)"
proof (induction s rule: fireUntilRetired.induct)
  case (1 s)
  show ?case
  proof (cases "loaderRetired s")
    case True
    with "1.prems" show ?thesis
      by (subst fireUntilRetired.simps) simp
  next
    case False
    have "batched n0 (fireUntilRetired (renderNextBatch s))"
      using False "1.prems" by (intro "1.IH" renderNextBatch_batched)
    with False show ?thesis
      by (subst fireUntilRetired.simps) simp
  qed
qed

lemma fireUntilRetired_sameView: "sameView (fireUntilRetired s) s"
proof (induction s rule: fireUntilRetired.induct)
  case (1 s)
  show ?case
  proof (cases "loaderRetired s")
    case True
    then show ?thesis
      by (subst fireUntilRetired.simps) (simp add: sameView_refl)
  next
    case False
    have "sameView (fireUntilRetired (renderNextBatch s)) s"
      using sameView_trans [OF "1.IH" [OF False] renderNextBatch_sameView] .
    with False show ?thesis
      by (subst fireUntilRetired.simps) simp
  qed
qed

lemma fireUntilRetired_retired: "loaderRetired (fireUntilRetired s)"
proof (induction s rule: fireUntilRetired.induct)
  case (1 s)
  show ?case
  proof (cases "loaderRetired s")
    case True
    then show ?thesis
      by (subst fireUntilRetired.simps) simp
  next
    case False
    with "1.IH" show ?thesis
      by (subst fireUntilRetired.simps) simp
  qed
qed

lemma batched_retired:
  assumes "batched n0 s" "loaderRetired s" "container s = ListView"
  shows "listContainer s = renderGroups s n0 (sortedGroups s)"
proof -
  have "loaderDisplayNone s"
    using assms(2,3) by (simp add: loaderRetired_def)
  with assms(1) have "length (sortedGroups s) \<le> currentBatch s * batchSize s"
    by (simp add: batched_def)
  with assms(1) show ?thesis
    by (simp add: batched_def)
qed

lemma render_empty:
  assumes "sortedGroups (buildView lc s) = []"
  shows "container (render lc s) \<noteq> ListView"
  using assms by (simp add: render_def Let_def)

lemma render_batched:
  assumes "sortedGroups (buildView lc s) \<noteq> []"
  shows "batched (nextNode s) (render lc s)" and "container (render lc s) = ListView"
proof -
  let ?s1 = "(buildView lc s)\<lparr>container := ListView, listContainer := [],
               loaderOpaque := False, loaderDisplayNone := False\<rparr>"
  have "batched (nextNode s) ?s1"
    by (simp add: batched_def buildView_frame itemTotal_Nil)
  then have "batched (nextNode s) (initialBatches 10 ?s1)"
    by (rule initialBatches_batched)
  then show "batched (nextNode s) (render lc s)"
    using assms by (simp add: render_def Let_def)
  show "container (render lc s) = ListView"
    using assms by (simp add: render_def Let_def initialBatches_frame)
qed

lemma drained_list:
  assumes "sortedGroups (buildView lc s) \<noteq> []"
  shows "listContainer (fireUntilRetired (render lc s))
           = renderGroups (render lc s) (nextNode s) (sortedGroups (render lc s))"
    and "container (fireUntilRetired (render lc s)) = ListView"
proof -
  let ?r = "render lc s" and ?f = "fireUntilRetired (render lc s)"
  have view: "sameView ?f ?r"
    by (rule fireUntilRetired_sameView)
  then show c: "container ?f = ListView"
    using render_batched(2) [OF assms] by (simp add: sameView_def)
  have "batched (nextNode s) ?f"
    using render_batched(1) [OF assms] by (rule fireUntilRetired_batched)
  then have "listContainer ?f = renderGroups ?f (nextNode s) (sortedGroups ?f)"
    using fireUntilRetired_retired c by (rule batched_retired)
  moreover have "sortedGroups ?f = sortedGroups ?r"
    using view by (simp add: sameView_def)
  ultimately show "listContainer ?f = renderGroups ?r (nextNode s) (sortedGroups ?r)"
    by (simp add: sameView_renderGroups [OF view])
qed

lemma drained_rendered:
  "renderedGroups (fireUntilRetired (render lc s))
     = renderGroups (render lc s) (nextNode s) (sortedGroups (render lc s))"
proof (cases "sortedGroups (buildView lc s) = []")
  case True
  have "container (fireUntilRetired (render lc s)) = container (render lc s)"
    using fireUntilRetired_sameView [of "render lc s"] by (simp add: sameView_def)
  then have "renderedGroups (fireUntilRetired (render lc s)) = []"
    using render_empty [OF True] by (simp add: renderedGroups_def)
  then show ?thesis
    using True by (simp add: render_view)
next
  case False
  then show ?thesis
    by (simp add: renderedGroups_def drained_list)
qed

section \<open>What the batches render\<close>

lemma renderItems_rows:
  "map (\<lambda>it. (dataSourceId it, dataChannelId it)) (renderItems s fav n chs)
     = map (\<lambda>ch. (sourceId ch, chId ch))
         (filter (\<lambda>ch. \<not> (channelHidden s fav ch \<and> \<not> showHidden s)) chs)"
  by (induction chs arbitrary: n) (simp_all add: itemOf_def)

lemma length_renderItems:
  "length (renderItems s fav n chs)
     = length (filter (\<lambda>ch. \<not> (channelHidden s fav ch \<and> \<not> showHidden s)) chs)"
  by (induction chs arbitrary: n) simp_all

lemma renderGroups_rows:
  "map (\<lambda>el. (dataGroup el, map (\<lambda>it. (dataSourceId it, dataChannelId it)) (groupItems el)))
     (renderGroups s n gs)
   = map (\<lambda>g. (g, map (\<lambda>ch. (sourceId ch, chId ch)) (filter (itemShown s g) (members s g))))
       (filter (groupEmitted s) gs)"
proof (induction gs arbitrary: n)
  case Nil
  show ?case by simp
next
  case (Cons g gs)
  have shown: "itemShown s g = (\<lambda>ch. \<not> (channelHidden s (isFavoritesGroup g) ch \<and> \<not> showHidden s))"
    by (simp add: itemShown_def fun_eq_iff)
  show ?case
    by (simp add: Cons.IH groupEmitted_def renderItems_rows shown Let_def)
qed

lemma all_emitted:
  assumes "showHidden (render lc s)"
  shows "filter (groupEmitted (render lc s)) (sortedGroups (render lc s)) = sortedGroups (render lc s)"
proof -
  have "groupEmitted (render lc s) g" if "g \<in> set (sortedGroups (render lc s))" for g
    using that assms members_nonempty [of g lc s]
    by (simp add: groupEmitted_def members_render render_view)
  then show ?thesis
    by (simp add: filter_id_conv)
qed

lemma drained_rows:
  "loaderRetired (fireUntilRetired (render lc s))
   \<and> distinct (sortedGroups (render lc s))
   \<and> rowsOf (fireUntilRetired (render lc s))
       = map (\<lambda>g. (g, map (\<lambda>ch. (sourceId ch, chId ch))
                         (filter (itemShown (render lc s) g) (members (render lc s) g))))
           (filter (groupEmitted (render lc s)) (sortedGroups (render lc s)))
   \<and> (showHidden (render lc s) \<longrightarrow>
        rowsOf (fireUntilRetired (render lc s))
          = map (\<lambda>g. (g, map (\<lambda>ch. (sourceId ch, chId ch)) (members (render lc s) g)))
              (sortedGroups (render lc s)))"
proof -
  have rows: "rowsOf (fireUntilRetired (render lc s))
       = map (\<lambda>g. (g, map (\<lambda>ch. (sourceId ch, chId ch))
                         (filter (itemShown (render lc s) g) (members (render lc s) g))))
           (filter (groupEmitted (render lc s)) (sortedGroups (render lc s)))"
    unfolding rowsOf_def drained_rendered by (rule renderGroups_rows)
  have all: "rowsOf (fireUntilRetired (render lc s))
          = map (\<lambda>g. (g, map (\<lambda>ch. (sourceId ch, chId ch)) (members (render lc s) g)))
              (sortedGroups (render lc s))" if sh: "showHidden (render lc s)"
  proof -
    have "itemShown (render lc s) g = (\<lambda>ch. True)" for g
      using sh by (simp add: itemShown_def fun_eq_iff)
    then show ?thesis
      unfolding rows all_emitted [OF sh] by simp
  qed
  have "distinct (sortedGroups (render lc s))"
    by (simp add: render_view keys_buildView(1))
  with rows all fireUntilRetired_retired show ?thesis
    by blast
qed






lemma renderGroups_element:
  "el \<in> set (renderGroups s n gs) \<Longrightarrow>
   groupCount el = length (members s (dataGroup el))
   \<and> length (groupItems el)
       = length (filter (itemShown s (dataGroup el)) (members s (dataGroup el)))"
proof (induction gs arbitrary: n)
  case Nil
  then show ?case by simp
next
  case (Cons g gs)
  have shown: "itemShown s g = (\<lambda>ch. \<not> (channelHidden s (isFavoritesGroup g) ch \<and> \<not> showHidden s))"
    by (simp add: itemShown_def fun_eq_iff)
  from Cons.prems Cons.IH show ?case
    by (auto simp: Let_def length_renderItems shown split: if_splits)
qed

text \<open>
  Of the hidden rules this much holds on every input: with show-hidden off, an entity
  whose own flag is set has no row in any group but Favorites, and rendering writes
  neither flag set.
\<close>

lemma own_flag_suppresses:
  assumes "(g, rows) \<in> set (rowsOf (fireUntilRetired (render lc s)))"
    and "\<not> isFavoritesGroup g" and "\<not> showHidden (render lc s)"
    and "(sid, cid) \<in> set rows"
  shows "\<not> isHidden (render lc s) ''channel'' sid cid"
proof -
  from assms(1) have "rows = map (\<lambda>ch. (sourceId ch, chId ch))
                         (filter (itemShown (render lc s) g) (members (render lc s) g))"
    using drained_rows [of lc s] by auto
  with assms(4) obtain ch where "itemShown (render lc s) g ch" "sourceId ch = sid" "chId ch = cid"
    by auto
  with assms(2,3) show ?thesis
    by (auto simp: itemShown_def channelHidden_def)
qed

lemma render_keeps_flags:
  "hiddenItems (fireUntilRetired (render lc s)) = hiddenItems s
   \<and> visibleFavorites (fireUntilRetired (render lc s)) = visibleFavorites s"
  using fireUntilRetired_sameView [of "render lc s"]
  by (simp add: sameView_def render_frame)

text \<open>
  Claim C4. With show-hidden off, the hidden flag of the group News under source 2 is
  set, the entity \<open>x2\<close> of source 2 stands in News, and it is rendered all the same:
  the renderer asks for the flag of a group under the source of the group's first member
  (\<open>x1\<close>, of source 1), where \<^verbatim>\<open>getVisibleChannels\<close> asks under the entity's own
  source and leaves \<open>x2\<close> out.
\<close>

theorem group_flag_of_other_source:
  "isHidden (render codeUnitCompare twoSources) ''group'' 2 ''News''
   \<and> \<not> showHidden (render codeUnitCompare twoSources)
   \<and> rowsOf (fireUntilRetired (render codeUnitCompare twoSources))
       = [(''News'', [(1, ''x1''), (2, ''x2'')])]
   \<and> map chId (getVisibleChannels (render codeUnitCompare twoSources)) = [''x1'']"
  by code_simp








text \<open>
  Claim C7, as the code has it. For every group on the page after a full rebuild and
  any number of batches up to retirement, the count in the header is the length of the
  group's member list, whether the members are rendered or not; the rows are the members
  that are not individually hidden (all of them under show-hidden and in Favorites), so
  that there the count is the number of rows.
\<close>

theorem header_count:
  assumes "el \<in> set (renderedGroups (fireUntilRetired (render lc s)))"
  shows "groupCount el = length (members (render lc s) (dataGroup el))
       \<and> length (groupItems el)
           = length (filter (itemShown (render lc s) (dataGroup el))
                       (members (render lc s) (dataGroup el)))
       \<and> (showHidden (render lc s) \<or> dataGroup el = ''Favorites''
            \<longrightarrow> groupCount el = length (groupItems el))"
proof -
  have el: "groupCount el = length (members (render lc s) (dataGroup el))"
    "length (groupItems el)
       = length (filter (itemShown (render lc s) (dataGroup el))
                   (members (render lc s) (dataGroup el)))"
    using assms renderGroups_element [of el "render lc s" "nextNode s" "sortedGroups (render lc s)"]
    unfolding drained_rendered by blast+
  have "itemShown (render lc s) (dataGroup el) = (\<lambda>ch. True)"
    if "showHidden (render lc s) \<or> dataGroup el = ''Favorites''"
    using that by (auto simp: itemShown_def channelHidden_def isFavoritesGroup_def fun_eq_iff)
  with el show ?thesis
    by simp
qed

text \<open>
  The Favorites group of the three entities with \<open>a\<close> and \<open>b\<close> flagged.
\<close>

theorem header_count_witness:
  "hd (renderedGroups (fireUntilRetired (render codeUnitCompare bothFavorites)))
     \<in> set (renderedGroups (fireUntilRetired (render codeUnitCompare bothFavorites)))
   \<and> dataGroup (hd (renderedGroups (fireUntilRetired (render codeUnitCompare bothFavorites))))
       = ''Favorites''
   \<and> groupCount (hd (renderedGroups (fireUntilRetired (render codeUnitCompare bothFavorites))))
       = length (groupItems (hd (renderedGroups (fireUntilRetired (render codeUnitCompare bothFavorites)))))"
proof -
  have "renderedGroups (fireUntilRetired (render codeUnitCompare bothFavorites)) \<noteq> []"
    by code_simp
  then have el: "hd (renderedGroups (fireUntilRetired (render codeUnitCompare bothFavorites)))
     \<in> set (renderedGroups (fireUntilRetired (render codeUnitCompare bothFavorites)))"
    by (rule hd_in_set)
  have fav: "dataGroup (hd (renderedGroups (fireUntilRetired (render codeUnitCompare bothFavorites))))
       = ''Favorites''"
    by code_simp
  show ?thesis
    using header_count [OF el] el fav by blast
qed

text \<open>
  Claim C7 as stated fails: with \<open>b\<close> hidden and show-hidden off, the header of News
  shows 2 and one row is rendered.
\<close>

theorem header_count_counterexample:
  "\<not> showHidden (render codeUnitCompare oneHidden)
   \<and> map (\<lambda>el. (dataGroup el, groupCount el, length (groupItems el)))
        (renderedGroups (fireUntilRetired (render codeUnitCompare oneHidden)))
       = [(''News'', 2, 1)]"
  by code_simp

end
